theory Spec2Isabelle
  imports Main
begin

section \<open>JavaScript strings\<close>

text \<open>
  A JavaScript string is a sequence of UTF-16 code units; \<open>length\<close>, indexing,
  \<open>substring\<close> and the regular expressions of the sources all count code units.
  A string is therefore a list of code units, each a natural number. \<open>str\<close> turns an
  Isabelle literal into that list.
\<close>

type_synonym jsstr = "nat list"

definition str :: "string \<Rightarrow> jsstr" where
  "str s = map of_char s"

definition is_digit :: "nat \<Rightarrow> bool" where
  \<comment> \<open>the regex class \<open>\\d\<close>, which in JavaScript is \<open>[0-9]\<close>\<close>
  "is_digit c = (48 \<le> c \<and> c \<le> 57)"

definition is_upper :: "nat \<Rightarrow> bool" where
  \<comment> \<open>the regex class \<open>[A-Z]\<close>\<close>
  "is_upper c = (65 \<le> c \<and> c \<le> 90)"

definition is_control :: "nat \<Rightarrow> bool" where
  \<comment> \<open>the regex class \<open>[\\u0000-\\u001F]\<close>; it contains the line feed (10)\<close>
  "is_control c = (c \<le> 31)"

definition js_space :: "nat \<Rightarrow> bool" where
  \<comment> \<open>WhiteSpace and LineTerminator of ECMAScript: what \<open>trim()\<close> strips and
      what \<open>\\s\<close> matches\<close>
  "js_space c =
     (c = 9 \<or> c = 10 \<or> c = 11 \<or> c = 12 \<or> c = 13 \<or> c = 32 \<or> c = 160 \<or> c = 5760
      \<or> (8192 \<le> c \<and> c \<le> 8202) \<or> c = 8232 \<or> c = 8233 \<or> c = 8239 \<or> c = 8287
      \<or> c = 12288 \<or> c = 65279)"

definition trim :: "jsstr \<Rightarrow> jsstr" where
  "trim s = rev (dropWhile js_space (rev (dropWhile js_space s)))"

definition padEnd :: "nat \<Rightarrow> nat \<Rightarrow> jsstr \<Rightarrow> jsstr" where
  \<comment> \<open>\<open>s.padEnd(n, fill)\<close> with a one-unit fill: it never shortens \<open>s\<close>\<close>
  "padEnd n fill s = s @ replicate (n - length s) fill"

definition substring :: "nat \<Rightarrow> nat \<Rightarrow> jsstr \<Rightarrow> jsstr" where
  \<comment> \<open>\<open>s.substring(a, b)\<close> for \<open>a \<le> b\<close>, both clamped to the length by \<open>take\<close> and \<open>drop\<close>\<close>
  "substring a b s = take (b - a) (drop a s)"

definition charAt :: "jsstr \<Rightarrow> nat \<Rightarrow> nat option" where
  \<comment> \<open>\<open>s[i]\<close>, \<open>None\<close> for \<open>undefined\<close> out of range\<close>
  "charAt s i = (if i < length s then Some (s ! i) else None)"

fun split_on :: "nat \<Rightarrow> jsstr \<Rightarrow> jsstr list" where
  \<comment> \<open>\<open>s.split(d)\<close> for a separator of one code unit\<close>
  "split_on d [] = [[]]"
| "split_on d (c # cs) =
     (if c = d then [] # split_on d cs
      else (case split_on d cs of p # ps \<Rightarrow> (c # p) # ps | [] \<Rightarrow> [[c]]))"

fun split_fillers :: "jsstr \<Rightarrow> jsstr list" where
  \<comment> \<open>\<open>s.split('<<')\<close>: leftmost occurrences, not overlapping\<close>
  "split_fillers (a # b # cs) =
     (if a = 60 \<and> b = 60 then [] # split_fillers cs
      else (case split_fillers (b # cs) of p # ps \<Rightarrow> (a # p) # ps | [] \<Rightarrow> [[a]]))"
| "split_fillers [a] = [[a]]"
| "split_fillers [] = [[]]"

fun show_nat :: "nat \<Rightarrow> jsstr" where
  "show_nat n = (if n < 10 then [48 + n] else show_nat (n div 10) @ [48 + n mod 10])"

definition show_int :: "int \<Rightarrow> jsstr" where
  \<comment> \<open>the decimal text of an integer, as a template literal prints it\<close>
  "show_int i = (if i < 0 then 45 # show_nat (nat (- i)) else show_nat (nat i))"

definition digits_value :: "jsstr \<Rightarrow> nat" where
  "digits_value ds = foldl (\<lambda>acc d. 10 * acc + (d - 48)) 0 ds"

definition parseInt10 :: "jsstr \<Rightarrow> int option" where
  \<comment> \<open>\<open>parseInt(s, 10)\<close>: leading white space, an optional sign, then the longest run
      of digits; \<open>None\<close> is \<open>NaN\<close>\<close>
  "parseInt10 s =
     (let t = dropWhile js_space s;
          neg = (t \<noteq> [] \<and> hd t = 45);
          u = (if t \<noteq> [] \<and> (hd t = 45 \<or> hd t = 43) then tl t else t);
          ds = takeWhile is_digit u
      in if ds = [] then None
         else Some (if neg then - int (digits_value ds) else int (digits_value ds)))"

section \<open>The MRZ parser (src/lib/mrz-parser.js)\<close>

record mrz_lines =
  line1 :: jsstr
  line2 :: jsstr

definition mrz_allowed :: "nat \<Rightarrow> bool" where
  \<comment> \<open>the complement of \<open>[^A-Z0-9<\\n]\<close>\<close>
  "mrz_allowed c = (is_upper c \<or> is_digit c \<or> c = 60 \<or> c = 10)"

definition mrz_clean :: "jsstr \<Rightarrow> jsstr" where
  \<comment> \<open>the four \<open>replace\<close> calls and the \<open>trim\<close> at the head of \<open>normalizeMrz\<close>,
      in the order of the source\<close>
  "mrz_clean mrzRaw =
     (let c1 = filter (\<lambda>c. \<not> is_control c) mrzRaw;
          c2 = trim (filter (\<lambda>c. c \<noteq> 13) c1);
          c3 = map (\<lambda>c. if c = 32 then 60 else c) c2
      in filter mrz_allowed c3)"

definition digits5 :: "jsstr \<Rightarrow> bool" where
  "digits5 r = (5 \<le> length r \<and> list_all is_digit (take 5 r))"

fun signature_here :: "jsstr \<Rightarrow> bool" where
  \<comment> \<open>\<open>/[A-Z]{1,2}\\d{5,}/\<close> matches at the head of the string\<close>
  "signature_here [] = False"
| "signature_here (a # r) =
     (is_upper a \<and> (digits5 r \<or> (case r of [] \<Rightarrow> False | b # r2 \<Rightarrow> is_upper b \<and> digits5 r2)))"

fun search_signature :: "jsstr \<Rightarrow> nat option" where
  \<comment> \<open>\<open>cleaned.search(/[A-Z]{1,2}\\d{5,}/)\<close>; \<open>None\<close> is the result -1\<close>
  "search_signature [] = None"
| "search_signature (c # cs) =
     (if signature_here (c # cs) then Some 0 else map_option Suc (search_signature cs))"

definition naive_split :: "jsstr \<Rightarrow> mrz_lines" where
  "naive_split cleaned =
     \<lparr>line1 = padEnd 44 60 (substring 0 44 cleaned),
      line2 = padEnd 44 60 (drop 44 cleaned)\<rparr>"

definition normalizeMrz :: "jsstr \<Rightarrow> mrz_lines option" where
  "normalizeMrz mrzRaw =
     (if mrzRaw = [] then None
      else
        let cleaned = mrz_clean mrzRaw;
            parts = filter (\<lambda>s. 0 < length s) (split_on 10 cleaned)
        in if 2 \<le> length parts
           then Some \<lparr>line1 = substring 0 44 (padEnd 44 60 (parts ! 0)),
                      line2 = substring 0 44 (padEnd 44 60 (parts ! 1))\<rparr>
           else
             let cleaned = filter (\<lambda>c. c \<noteq> 10) cleaned
             in if 88 \<le> length cleaned
                then Some \<lparr>line1 = substring 0 44 cleaned, line2 = substring 44 88 cleaned\<rparr>
                else if 44 \<le> length cleaned
                then (case search_signature cleaned of
                        Some line2Start \<Rightarrow>
                          if 0 < line2Start
                          then Some \<lparr>line1 = padEnd 44 60 (take line2Start cleaned),
                                     line2 = padEnd 44 60 (drop line2Start cleaned)\<rparr>
                          else Some (naive_split cleaned)
                      | None \<Rightarrow> Some (naive_split cleaned))
                else None)"

definition formatMrzDate :: "jsstr \<Rightarrow> jsstr" where
  "formatMrzDate dateStr =
     (if dateStr = [] \<or> length dateStr \<noteq> 6 then []
      else
        let month = substring 2 4 dateStr;
            day = substring 4 6 dateStr;
            year = (case parseInt10 (substring 0 2 dateStr) of
                      None \<Rightarrow> str ''NaN''
                    | Some y \<Rightarrow> show_int (if 50 < y then 1900 + y else 2000 + y))
        in year @ str ''-'' @ month @ str ''-'' @ day)"

record mrz_parsed =
  mrzDocumentType :: jsstr  \<comment> \<open>the field \<open>documentType\<close> of the parser's result\<close>
  issuingCountry :: jsstr
  surname :: jsstr
  givenNames :: jsstr
  fullName :: jsstr
  passportNo :: jsstr
  nationality :: jsstr
  birthDate :: jsstr
  sex :: jsstr
  expiryDate :: jsstr
  personalNo :: jsstr
  raw :: mrz_lines

definition strip_fillers :: "jsstr \<Rightarrow> jsstr" where
  \<comment> \<open>\<open>.replace(/</g, '')\<close>\<close>
  "strip_fillers s = filter (\<lambda>c. c \<noteq> 60) s"

definition fillers_to_space :: "jsstr \<Rightarrow> jsstr" where
  \<comment> \<open>\<open>.replace(/</g, ' ')\<close>\<close>
  "fillers_to_space s = map (\<lambda>c. if c = 60 then 32 else c) s"

definition parseMrzFull :: "jsstr \<Rightarrow> mrz_parsed option" where
  "parseMrzFull mrzRaw =
     (case normalizeMrz mrzRaw of
        None \<Rightarrow> None
      | Some normalized \<Rightarrow>
          let l1 = line1 normalized;
              l2 = line2 normalized;
              nameSplit = split_fillers (substring 5 44 l1);
              sn = trim (fillers_to_space (case nameSplit of [] \<Rightarrow> [] | a # _ \<Rightarrow> a));
              gn = trim (fillers_to_space (case nameSplit of a # b # _ \<Rightarrow> b | _ \<Rightarrow> []));
              sx = charAt l2 20
          in Some \<lparr>mrzDocumentType = strip_fillers (substring 0 2 l1),
                   issuingCountry = strip_fillers (substring 2 5 l1),
                   surname = sn,
                   givenNames = gn,
                   fullName = trim (sn @ str '' '' @ gn),
                   passportNo = strip_fillers (substring 0 9 l2),
                   nationality = strip_fillers (substring 10 13 l2),
                   birthDate = formatMrzDate (substring 13 19 l2),
                   sex = (if sx = Some 77 then str ''Male''
                          else if sx = Some 70 then str ''Female'' else str ''Unknown''),
                   expiryDate = formatMrzDate (substring 21 27 l2),
                   personalNo = strip_fillers (substring 28 42 l2),
                   raw = normalized\<rparr>)"


section \<open>The main process: validators, one scan attempt, the control loop\<close>

text \<open>
  The definitions below translate \<open>src/main.js\<close>, function by function and under the
  names of the source; where the source has no name (a loop inside \<open>performScan\<close>, an IPC
  handler) the definition says which lines it translates. Left out are the log output, the
  names of the files written, and the text that is written into them; \<open>sendToRenderer\<close>
  is taken to have a window to send to.

  The text of \<open>src/INTEGRATION_GUIDE.md\<close> is followed by another revision of the main
  process, with a guard against unknown card types, a pending manual scan, a counter of
  timeouts, a guard against frequent reconnects and deadlines on the calls of an attempt.
  \<open>src/main.js\<close> has none of these, and it is \<open>src/main.js\<close> that is translated here.
\<close>

subsection \<open>Validators\<close>

fun starts_with :: "jsstr \<Rightarrow> jsstr \<Rightarrow> bool" where
  "starts_with s [] = True"
| "starts_with [] (p # ps) = False"
| "starts_with (c # cs) (p # ps) = (c = p \<and> starts_with cs ps)"

definition isValidPassportMRZ :: "jsstr \<Rightarrow> bool" where
  "isValidPassportMRZ mrz =
     (if mrz = [] then False
      else
        let cleaned = filter (\<lambda>c. \<not> js_space c) mrz
        in (starts_with cleaned (str ''P'') \<or> starts_with cleaned (str ''P<''))
           \<and> 60 \<le> length cleaned)"

definition all_digits :: "jsstr \<Rightarrow> bool" where
  "all_digits s = list_all is_digit s"

definition looksLikeKoreanRRN :: "jsstr option \<Rightarrow> bool" where
  \<comment> \<open>\<open>/^\\d{6}-\\d{7}$/.test(s) || /^\\d{13}$/.test(s)\<close> on the trimmed value;
      a missing or empty value is falsy\<close>
  "looksLikeKoreanRRN idNo =
     (case idNo of
        None \<Rightarrow> False
      | Some v \<Rightarrow>
          if v = [] then False
          else
            let s = trim v
            in (length s = 14 \<and> all_digits (take 6 s) \<and> charAt s 6 = Some 45
                  \<and> all_digits (drop 7 s))
               \<or> (length s = 13 \<and> all_digits s))"

definition looksLikeDriverLicenseNo :: "jsstr option \<Rightarrow> bool" where
  \<comment> \<open>\<open>/^\\d{2}-\\d{2}-\\d{6}-\\d{2}$/\<close> on the trimmed value\<close>
  "looksLikeDriverLicenseNo licenseNo =
     (case licenseNo of
        None \<Rightarrow> False
      | Some v \<Rightarrow>
          if v = [] then False
          else
            let s = trim v
            in length s = 15 \<and> all_digits (take 2 s) \<and> charAt s 2 = Some 45
               \<and> all_digits (substring 3 5 s) \<and> charAt s 5 = Some 45
               \<and> all_digits (substring 6 12 s) \<and> charAt s 12 = Some 45
               \<and> all_digits (drop 13 s))"

definition digit_5_to_8 :: "nat option \<Rightarrow> bool" where
  "digit_5_to_8 c = (c = Some 53 \<or> c = Some 54 \<or> c = Some 55 \<or> c = Some 56)"

definition looksLikeAlienRegNo :: "jsstr option \<Rightarrow> bool" where
  "looksLikeAlienRegNo alienNo =
     (case alienNo of
        None \<Rightarrow> False
      | Some v \<Rightarrow>
          if v = [] then False
          else
            let s = trim v
            in if length s = 14 \<and> all_digits (take 6 s) \<and> charAt s 6 = Some 45
                  \<and> digit_5_to_8 (charAt s 7) \<and> all_digits (drop 8 s)
               then True
               else if length s = 13 \<and> all_digits s \<and> digit_5_to_8 (charAt s 6)
               then True
               else False)"

datatype doc_name = ID_CARD | DRIVER_LICENSE | ALIEN_CARD | PASSPORT | UNKNOWN
  \<comment> \<open>the names \<open>getDocumentType\<close> of src/lib/scanner.js can return\<close>

record ocr_fields =
  \<comment> \<open>the fields of an OCR result that the main process reads to decide; \<open>None\<close> is a
      field the object does not have\<close>
  name :: "jsstr option"
  idNo :: "jsstr option"
  licenseNo :: "jsstr option"
  alienNo :: "jsstr option"

record document_data =
  documentType :: doc_name
  ocr :: ocr_fields
  parsed :: "mrz_parsed option"

definition no_fields :: ocr_fields where
  "no_fields = \<lparr>name = None, idNo = None, licenseNo = None, alienNo = None\<rparr>"

definition field :: "(ocr_fields \<Rightarrow> jsstr option) \<Rightarrow> ocr_fields option \<Rightarrow> jsstr option" where
  \<comment> \<open>\<open>v?.f\<close>\<close>
  "field f v = (case v of None \<Rightarrow> None | Some r \<Rightarrow> f r)"

definition tagged :: "doc_name \<Rightarrow> ocr_fields option \<Rightarrow> document_data option" where
  \<comment> \<open>\<open>{ ...v, documentType: ty }\<close>\<close>
  "tagged ty v = map_option (\<lambda>f. \<lparr>documentType = ty, ocr = f, parsed = None\<rparr>) v"

definition adoptOcr ::
  "ocr_fields option \<Rightarrow> ocr_fields option \<Rightarrow> ocr_fields option \<Rightarrow> document_data option" where
  \<comment> \<open>lines 346 to 365 of \<open>performScan\<close>: which of the three OCR results of one round
      becomes \<open>documentData\<close>\<close>
  "adoptOcr license idCard alien =
     (if looksLikeKoreanRRN (field idNo idCard) then tagged ID_CARD idCard
      else if looksLikeDriverLicenseNo (field licenseNo license)
      then tagged DRIVER_LICENSE license
      else if looksLikeAlienRegNo (field alienNo alien) then tagged ALIEN_CARD alien
      else None)"

subsection \<open>Device calls, deadlines and what a piece of asynchronous code does\<close>

text \<open>
  A call on the scanner client is a promise. What the caller can observe of it is when
  and how it settles: it resolves with a value after some milliseconds, rejects with an
  error message after some milliseconds, or stays pending for ever. \<open>withTimeout\<close>
  races it against a timer of \<open>ms\<close> milliseconds and is a promise again; a promise that
  has not settled before the timer fires loses the race.
\<close>

datatype 'a reply = Resolves nat 'a | Rejects nat jsstr | Pending

definition timeout_message :: "jsstr \<Rightarrow> nat \<Rightarrow> jsstr" where
  "timeout_message label ms = label @ str '' timed out after '' @ show_nat ms @ str ''ms''"

definition withTimeout :: "'a reply \<Rightarrow> nat \<Rightarrow> jsstr \<Rightarrow> 'a reply" where
  "withTimeout promise ms label =
     (case promise of
        Resolves t v \<Rightarrow> if t < ms then Resolves t v else Rejects ms (timeout_message label ms)
      | Rejects t m \<Rightarrow> if t < ms then Rejects t m else Rejects ms (timeout_message label ms)
      | Pending \<Rightarrow> Rejects ms (timeout_message label ms))"

datatype device_call =
  ScanAuto | GetDocumentType | ReadMRZ | ReadIDCard | ReadDriverLicense | ReadAlienCard
  | ResetState | Open | Close | Destroy | Init
  \<comment> \<open>the calls on the scanner client that the main process makes, and \<open>resetState\<close>
      of the scanner worker, which \<open>src/main.js\<close> never calls\<close>

datatype artefact = Bmp | Ir
  \<comment> \<open>the staged image files \<open>scanStamp.bmp\<close> and \<open>scanStamp_IR.bmp\<close>\<close>

datatype effect =
    Call device_call
  | Sleep nat
  | WaitFile artefact nat  \<comment> \<open>\<open>waitForFileExists(path, timeoutMs, 250)\<close>\<close>
  | Unlink artefact
  | Rename artefact
  | WriteText
  | WriteJson
  | SendScanResult
  | SendStatus bool bool
      \<comment> \<open>a \<open>scanner-status\<close> event: \<open>connected\<close>, and whether it carries an \<open>error\<close> text\<close>

text \<open>
  A piece of asynchronous code returns a value, leaves by an error, or never gets past an
  \<open>await\<close>; in each case it has had some effects, in order.
\<close>

datatype 'a exec =
    Returns 'a "effect list"
  | Throws jsstr "effect list"
  | Hangs "effect list"

definition call :: "device_call \<Rightarrow> 'a reply \<Rightarrow> 'a exec" where
  \<comment> \<open>\<open>await\<close> of the promise of a device call\<close>
  "call c promise =
     (case promise of
        Resolves t v \<Rightarrow> Returns v [Call c]
      | Rejects t m \<Rightarrow> Throws m [Call c]
      | Pending \<Rightarrow> Hangs [Call c])"

fun after :: "effect list \<Rightarrow> 'a exec \<Rightarrow> 'a exec" where
  \<comment> \<open>the effects \<open>es\<close> come first\<close>
  "after es (Returns v fs) = Returns v (es @ fs)"
| "after es (Throws m fs) = Throws m (es @ fs)"
| "after es (Hangs fs) = Hangs (es @ fs)"

fun andThen :: "'a exec \<Rightarrow> ('a \<Rightarrow> 'b exec) \<Rightarrow> 'b exec" where
  \<comment> \<open>sequencing: what follows runs only when what came before has returned\<close>
  "andThen (Returns v es) f = after es (f v)"
| "andThen (Throws m es) f = Throws m es"
| "andThen (Hangs es) f = Hangs es"

fun orElse :: "'a exec \<Rightarrow> 'a \<Rightarrow> 'a exec" where
  \<comment> \<open>\<open>.catch(() => d)\<close>, and \<open>try { \<dots> } catch (_) {}\<close>\<close>
  "orElse (Throws m es) d = Returns d es"
| "orElse (Returns v es) d = Returns v es"
| "orElse (Hangs es) d = Hangs es"

fun effects :: "'a exec \<Rightarrow> effect list" where
  "effects (Returns v es) = es"
| "effects (Throws m es) = es"
| "effects (Hangs es) = es"

subsection \<open>One scan attempt\<close>

datatype scan_type = Passport | Card | NoScan

record scan_result =
  success :: bool
  scanType :: scan_type  \<comment> \<open>the field \<open>type\<close>\<close>

record attempt_env =
  \<comment> \<open>what the device and the file system answer during one attempt; a reply indexed by
      \<open>k\<close> answers the call of that getter in round \<open>k\<close> of its loop\<close>
  scanAutoReply :: "scan_result reply"
  staged :: "artefact set"
    \<comment> \<open>the staged images on disk where \<open>performScan\<close> asks \<open>fs.existsSync\<close> for them\<close>
  docTypeReply :: "doc_name option reply"
  mrzReply :: "nat \<Rightarrow> jsstr option reply"
  licenseReply :: "nat \<Rightarrow> ocr_fields option reply"
  idCardReply :: "nat \<Rightarrow> ocr_fields option reply"
  alienReply :: "nat \<Rightarrow> ocr_fields option reply"
  unlinkThrows :: "artefact \<Rightarrow> bool"  \<comment> \<open>\<open>fs.unlinkSync\<close> of that file throws\<close>
  renameThrows :: "artefact \<Rightarrow> bool"  \<comment> \<open>\<open>fs.renameSync\<close> of that file throws\<close>
  writeTextThrows :: bool
  writeJsonThrows :: bool
  fsError :: jsstr    \<comment> \<open>the message of a file-system error\<close>
  clock :: int        \<comment> \<open>\<open>Date.now()\<close> where the attempt reads it\<close>

fun mrzLoop :: "(nat \<Rightarrow> jsstr option reply) \<Rightarrow> nat \<Rightarrow> nat \<Rightarrow> jsstr option exec" where
  \<comment> \<open>the loop of lines 318 to 332: \<open>i\<close> counts up, the third argument counts the rounds
      left; \<open>Some candidate\<close> is \<open>isPassportConfirmed\<close>\<close>
  "mrzLoop rs i 0 = Returns None []"
| "mrzLoop rs i (Suc n) =
     andThen (call ReadMRZ (rs i))
       (\<lambda>v. let candidate = (case v of None \<Rightarrow> [] | Some m \<Rightarrow> m)
            in if isValidPassportMRZ candidate then Returns (Some candidate) []
               else after [Sleep 300] (mrzLoop rs (Suc i) n))"

fun ocrLoop :: "attempt_env \<Rightarrow> nat \<Rightarrow> nat \<Rightarrow> document_data option exec" where
  \<comment> \<open>the loop of lines 338 to 368\<close>
  "ocrLoop env i 0 = Returns None []"
| "ocrLoop env i (Suc n) =
     andThen (call ReadDriverLicense (licenseReply env i))
       (\<lambda>license.
          andThen (call ReadIDCard (idCardReply env i))
            (\<lambda>idCard.
               andThen (call ReadAlienCard (alienReply env i))
                 (\<lambda>alien.
                    case adoptOcr license idCard alien of
                      Some d \<Rightarrow> Returns (Some d) []
                    | None \<Rightarrow> after [Sleep 250] (ocrLoop env (Suc i) n))))"

definition readDocument :: "scan_result \<Rightarrow> attempt_env \<Rightarrow> (jsstr \<times> document_data option) exec" where
  \<comment> \<open>lines 309 to 372: what fills \<open>mrzText\<close> and \<open>documentData\<close>\<close>
  "readDocument scanResult env =
     andThen (if scanType scanResult = Passport then mrzLoop (mrzReply env) 0 10
              else Returns None [])
       (\<lambda>confirmed.
          let mrzText = (case confirmed of None \<Rightarrow> [] | Some c \<Rightarrow> c);
              documentData =
                (case confirmed of
                   None \<Rightarrow> None
                 | Some c \<Rightarrow>
                     map_option
                       (\<lambda>p. \<lparr>documentType = PASSPORT, ocr = no_fields, parsed = Some p\<rparr>)
                       (parseMrzFull c))
          in if documentData = None \<and> scanType scanResult = Card \<and> confirmed = None
             then andThen (ocrLoop env 0 10) (\<lambda>d. Returns (mrzText, d) [])
             else Returns (mrzText, documentData) [])"

definition recognized :: "jsstr \<Rightarrow> document_data option \<Rightarrow> bool" where
  \<comment> \<open>\<open>(mrzText && mrzText.length > 10) || (documentData && documentData.documentType)\<close>;
      a document type is a non-empty string\<close>
  "recognized mrzText documentData =
     ((mrzText \<noteq> [] \<and> 10 < length mrzText) \<or> documentData \<noteq> None)"

definition unlinkIfExists :: "attempt_env \<Rightarrow> artefact \<Rightarrow> unit exec" where
  \<comment> \<open>\<open>try { if (fs.existsSync(p)) fs.unlinkSync(p); } catch (_) {}\<close>\<close>
  "unlinkIfExists env a = Returns () (if a \<in> staged env then [Unlink a] else [])"

definition renameIfExists :: "attempt_env \<Rightarrow> artefact \<Rightarrow> unit exec" where
  \<comment> \<open>the file is in \<open>newFiles\<close> when it exists, and is then renamed\<close>
  "renameIfExists env a =
     (if a \<in> staged env
      then (if renameThrows env a then Throws (fsError env) [Rename a]
            else Returns () [Rename a])
      else Returns () [])"

definition writeText :: "attempt_env \<Rightarrow> unit exec" where
  "writeText env =
     (if writeTextThrows env then Throws (fsError env) [WriteText] else Returns () [WriteText])"

definition writeJson :: "attempt_env \<Rightarrow> unit exec" where
  "writeJson env =
     (if writeJsonThrows env then Throws (fsError env) [WriteJson] else Returns () [WriteJson])"

datatype attempt_outcome = NoDocument | RecognitionFailed | Saved

definition finishScan ::
  "attempt_env \<Rightarrow> jsstr \<Rightarrow> document_data option \<Rightarrow> attempt_outcome exec" where
  \<comment> \<open>lines 374 to 484: an unrecognized document is dropped, a recognized one is saved
      and announced\<close>
  "finishScan env mrzText documentData =
     (if \<not> recognized mrzText documentData
      then andThen (unlinkIfExists env Bmp)
             (\<lambda>_. andThen (unlinkIfExists env Ir)
                    (\<lambda>_. Returns RecognitionFailed []))
      else andThen (renameIfExists env Bmp)
             (\<lambda>_. andThen (renameIfExists env Ir)
             (\<lambda>_. andThen (writeText env)
             (\<lambda>_. andThen (if documentData \<noteq> None then writeJson env else Returns () [])
             (\<lambda>_. Returns Saved [SendScanResult, Sleep 1500])))))"

definition performScan_try :: "attempt_env \<Rightarrow> attempt_outcome exec" where
  \<comment> \<open>the \<open>try\<close> block of \<open>performScan\<close>\<close>
  "performScan_try env =
     andThen (call ScanAuto (scanAutoReply env))
       (\<lambda>scanResult.
          if \<not> success scanResult then Returns NoDocument []
          else
            after [WaitFile Bmp 8000, WaitFile Ir 1500, Sleep 600]
              (andThen (call GetDocumentType (docTypeReply env))
                 (\<lambda>docType.
                    andThen (readDocument scanResult env)
                      (\<lambda>(mrzText, documentData). finishScan env mrzText documentData))))"


subsection \<open>The state of the main process\<close>

record orch =
  \<comment> \<open>the global variables of the main process \<dots>\<close>
  scannerPresent :: bool     \<comment> \<open>\<open>scanner\<close> is not null\<close>
  scannerOpened :: bool
  scanLoopTimer :: bool      \<comment> \<open>\<open>scanLoopTimer\<close> is not null\<close>
  isScanning :: bool
  lastFailedAt :: int
  \<comment> \<open>\<dots> and what the process has done so far\<close>
  trace :: "effect list"     \<comment> \<open>device calls, file operations and events sent, in order\<close>
  started :: nat             \<comment> \<open>calls of \<open>performScan\<close> that passed the busy check\<close>
  finished :: nat            \<comment> \<open>calls of \<open>performScan\<close> that have cleared \<open>isScanning\<close>\<close>
  stuck :: bool              \<comment> \<open>the attempt in flight awaits a call that never settles\<close>

definition FAIL_BACKOFF_MS :: int where
  "FAIL_BACKOFF_MS = 2500"

definition emit :: "effect list \<Rightarrow> orch \<Rightarrow> orch" where
  "emit es s = s\<lparr>trace := trace s @ es\<rparr>"

definition startScanLoop :: "orch \<Rightarrow> orch" where
  "startScanLoop s = (if scanLoopTimer s then s else s\<lparr>scanLoopTimer := True\<rparr>)"

definition stopScanLoop :: "orch \<Rightarrow> orch" where
  "stopScanLoop s = (if scanLoopTimer s then s\<lparr>scanLoopTimer := False\<rparr> else s)"

definition openCall :: "bool reply \<Rightarrow> bool reply" where
  \<comment> \<open>the promise \<open>withTimeout(scanner.open(hwnd), 3000, 'scanner.open')\<close>\<close>
  "openCall promise = withTimeout promise 3000 (str ''scanner.open'')"

definition closeCall :: "unit reply \<Rightarrow> unit reply" where
  \<comment> \<open>the promise \<open>withTimeout(scanner.close(), 2000, 'scanner.close')\<close>\<close>
  "closeCall promise = withTimeout promise 2000 (str ''scanner.close'')"

definition tryOpenDevice :: "bool reply \<Rightarrow> orch \<Rightarrow> (bool \<times> orch) exec" where
  "tryOpenDevice openReply s =
     (if \<not> scannerPresent s then Returns (False, s) []
      else
        andThen (orElse (call Open (openCall openReply)) False)
          (\<lambda>success.
             Returns (success, s\<lparr>scannerOpened := success\<rparr>) [SendStatus success False]))"

definition closeDevice :: "unit reply \<Rightarrow> orch \<Rightarrow> (unit \<times> orch) exec" where
  "closeDevice closeReply s =
     (if scannerPresent s
      then andThen (orElse (call Close (closeCall closeReply)) ())
             (\<lambda>_. Returns ((), s\<lparr>scannerOpened := False\<rparr>) [SendStatus False False])
      else Returns ((), s) [])"

subsection \<open>The IPC handler of a reconnect request\<close>

record reconnect_env =
  closeReply :: "unit reply"
  openReply :: "bool reply"
  destroyReply :: "unit reply"
  initReply :: "bool reply"
  reopenReply :: "bool reply"

definition destroyCall :: "unit reply \<Rightarrow> unit reply" where
  \<comment> \<open>the promise \<open>withTimeout(scanner.destroy(), 1500, 'scanner.destroy')\<close>\<close>
  "destroyCall promise = withTimeout promise 1500 (str ''scanner.destroy'')"

definition initCall :: "bool reply \<Rightarrow> bool reply" where
  \<comment> \<open>the promise \<open>withTimeout(scanner.init(), 3000, 'scanner.init')\<close>\<close>
  "initCall promise = withTimeout promise 3000 (str ''scanner.init'')"

definition reconnect_scanner :: "reconnect_env \<Rightarrow> orch \<Rightarrow> (bool \<times> orch) exec" where
  \<comment> \<open>lines 534 to 562, the handler of \<open>reconnect-scanner\<close>; the value is the field \<open>ok\<close>
      of its answer\<close>
  "reconnect_scanner renv s =
     andThen (orElse (closeDevice (closeReply renv) s) ((), s))
       (\<lambda>(_, s1).
          after [Sleep 250]
            (andThen (orElse (tryOpenDevice (openReply renv) s1) (False, s1))
               (\<lambda>(success, s2).
                  if success then Returns (True, s2) []
                  else
                    andThen (if scannerPresent s2
                             then orElse (call Destroy (destroyCall (destroyReply renv))) ()
                             else Returns () [])
                      (\<lambda>_.
                         let s3 = s2\<lparr>scannerPresent := True\<rparr>
                         in andThen (orElse (call Init (initCall (initReply renv))) False)
                              (\<lambda>inited.
                                 if \<not> inited
                                 then Returns (False, s3\<lparr>scannerOpened := False\<rparr>)
                                        [SendStatus False True]
                                 else orElse (tryOpenDevice (reopenReply renv) s3)
                                        (False, s3))))))"

subsection \<open>performScan around its try block\<close>

definition performScan_begin :: "orch \<Rightarrow> orch" where
  \<comment> \<open>\<open>if (isScanning) return; isScanning = true;\<close>\<close>
  "performScan_begin s =
     (if isScanning s then s else s\<lparr>isScanning := True, started := started s + 1\<rparr>)"

definition performScan_end :: "attempt_env \<Rightarrow> orch \<Rightarrow> orch" where
  \<comment> \<open>what the rest of \<open>performScan\<close> does to the globals: an unrecognized document sets
      \<open>lastFailedAt\<close>; every way out of the \<open>try\<close> block, and the \<open>catch\<close> block, clears
      \<open>isScanning\<close>; a call that never settles leaves it set\<close>
  "performScan_end env s =
     (case performScan_try env of
        Returns out es \<Rightarrow>
          emit es
            (s\<lparr>lastFailedAt := (if out = RecognitionFailed then clock env else lastFailedAt s),
               isScanning := False, finished := finished s + 1\<rparr>)
      | Throws m es \<Rightarrow> emit es (s\<lparr>isScanning := False, finished := finished s + 1\<rparr>)
      | Hangs es \<Rightarrow> emit es (s\<lparr>stuck := True\<rparr>))"

subsection \<open>The events of the main process\<close>

text \<open>
  JavaScript runs one callback at a time, to its end or to its next \<open>await\<close>. Each event
  below is such a run, or the whole of an asynchronous function whose steps no other
  callback can observe apart: a tick of the interval timer, an IPC request of the operator,
  the USB monitor opening or closing the device, and the rest of the attempt in flight once
  the device has answered. An attempt in flight does not touch the globals between its start
  and its end in a way another callback could see, except that it holds \<open>isScanning\<close>.
\<close>

definition settle :: "orch \<Rightarrow> ('a \<times> orch) exec \<Rightarrow> orch" where
  \<comment> \<open>the globals after an asynchronous function, its effects added to the trace\<close>
  "settle s x =
     (case x of
        Returns r es \<Rightarrow> emit es (snd r)
      | Throws m es \<Rightarrow> emit es s
      | Hangs es \<Rightarrow> emit es s)"

datatype event =
    Tick int                       \<comment> \<open>the \<open>setInterval\<close> callback, at this \<open>Date.now()\<close>\<close>
  | ManualScan                     \<comment> \<open>IPC \<open>manual-scan\<close>\<close>
  | AttemptEnds attempt_env        \<comment> \<open>the attempt in flight runs on from its \<open>try\<close>\<close>
  | ReconnectRequest int reconnect_env
      \<comment> \<open>IPC \<open>reconnect-scanner\<close>, arriving at this \<open>Date.now()\<close>, which the handler does
          not read\<close>
  | StartLoopRequest               \<comment> \<open>IPC \<open>start-scan-loop\<close>\<close>
  | StopLoopRequest                \<comment> \<open>IPC \<open>stop-scan-loop\<close>\<close>
  | DeviceOpens "bool reply"       \<comment> \<open>\<open>tryOpenDevice\<close> of the USB monitor\<close>
  | DeviceCloses "unit reply"      \<comment> \<open>\<open>closeDevice\<close> of the USB monitor\<close>

fun step :: "event \<Rightarrow> orch \<Rightarrow> orch" where
  "step (Tick now) s =
     (if \<not> scanLoopTimer s then s
      else if \<not> scannerPresent s \<or> \<not> scannerOpened s \<or> isScanning s then s
      else if now - lastFailedAt s < FAIL_BACKOFF_MS then s
      else performScan_begin s)"
| "step ManualScan s =
     (if \<not> scannerPresent s \<or> \<not> scannerOpened s then s else performScan_begin s)"
| "step (AttemptEnds env) s =
     (if \<not> isScanning s \<or> stuck s then s else performScan_end env s)"
| "step (ReconnectRequest now renv) s = settle s (reconnect_scanner renv s)"
| "step StartLoopRequest s =
     (if \<not> scannerPresent s \<or> \<not> scannerOpened s then s else startScanLoop s)"
| "step StopLoopRequest s = stopScanLoop s"
| "step (DeviceOpens r) s = settle s (tryOpenDevice r s)"
| "step (DeviceCloses r) s = settle s (closeDevice r s)"

definition run :: "event list \<Rightarrow> orch \<Rightarrow> orch" where
  "run es s = foldl (\<lambda>t e. step e t) s es"

definition initial :: orch where
  \<comment> \<open>the globals once \<open>app.whenReady\<close> has initialised the scanner and started the loop\<close>
  "initial =
     \<lparr>scannerPresent = True, scannerOpened = False, scanLoopTimer = True, isScanning = False,
      lastFailedAt = 0, trace = [], started = 0, finished = 0, stuck = False\<rparr>"

section \<open>Definitions used to state the properties\<close>


definition split_cleaned :: "jsstr \<Rightarrow> mrz_lines option" where
  \<comment> \<open>what \<open>normalizeMrz\<close> does with the cleaned text once it is a single segment\<close>
  "split_cleaned c =
     (if 88 \<le> length c
      then Some \<lparr>line1 = take 44 c, line2 = take 44 (drop 44 c)\<rparr>
      else if 44 \<le> length c
      then (case search_signature c of
              Some p \<Rightarrow>
                if 0 < p
                then Some \<lparr>line1 = padEnd 44 60 (take p c), line2 = padEnd 44 60 (drop p c)\<rparr>
                else Some (naive_split c)
            | None \<Rightarrow> Some (naive_split c))
      else None)"

definition specimen_line1 :: jsstr where
  "specimen_line1 = str ''P<UTOERIKSSON<<ANNA<MARIA<<<<<<<<<<<<<<<<<<<''"

definition specimen_line2 :: jsstr where
  "specimen_line2 = str ''L898902C<3UTO6908061F9406236ZE184226B<<<<<10''"

text \<open>
  The normalisation as the specification words it, to be compared with \<open>normalizeMrz\<close>:
  line feeds delimit segments; two or more segments give the first two, each padded and
  truncated to 44; a single segment of 88 or more is cut at 44 and 88; one of 44 to 87 is
  cut at the first match of the signature when there is one, else at 44; anything shorter
  fails. Every line it returns has exactly 44 code units.
\<close>

definition fit44 :: "jsstr \<Rightarrow> jsstr" where
  "fit44 s = take 44 (padEnd 44 60 s)"

definition spec_segments :: "jsstr \<Rightarrow> jsstr list" where
  "spec_segments mrzRaw =
     filter (\<lambda>s. s \<noteq> [])
       (split_on 10
          (filter mrz_allowed
             (map (\<lambda>c. if c = 32 then 60 else c)
                (trim (filter (\<lambda>c. \<not> is_control c \<or> c = 10) mrzRaw)))))"

definition spec_normalize :: "jsstr \<Rightarrow> mrz_lines option" where
  "spec_normalize mrzRaw =
     (let segs = spec_segments mrzRaw
      in if 2 \<le> length segs
         then Some \<lparr>line1 = fit44 (segs ! 0), line2 = fit44 (segs ! 1)\<rparr>
         else
           let c = concat segs
           in if 88 \<le> length c
              then Some \<lparr>line1 = take 44 c, line2 = take 44 (drop 44 c)\<rparr>
              else if 44 \<le> length c
              then (case search_signature c of
                      Some p \<Rightarrow> Some \<lparr>line1 = fit44 (take p c), line2 = fit44 (drop p c)\<rparr>
                    | None \<Rightarrow> Some \<lparr>line1 = fit44 (take 44 c), line2 = fit44 (drop 44 c)\<rparr>)
              else None)"

definition leading_signature_input :: jsstr where
  \<comment> \<open>47 code units whose first seven already match the signature\<close>
  "leading_signature_input = str ''AB12345<<<<<<<<<<<<<<<<<<<<<<<<<<<<<<<<<<<<<<<<''"

definition damaged_capture :: jsstr where
  \<comment> \<open>a line 1 cut short to 26 code units, directly followed by the specimen line 2\<close>
  "damaged_capture = str ''P<UTOERIKSSON<<ANNA<MARIA<'' @ specimen_line2"

definition matches_rrn_pattern :: "jsstr \<Rightarrow> bool" where
  \<comment> \<open>thirteen digits, with or without one hyphen after the sixth\<close>
  "matches_rrn_pattern s =
     (let a = take 6 s; b = drop 6 s
      in length a = 6 \<and> all_digits a
         \<and> ((length b = 7 \<and> all_digits b)
              \<or> (length b = 8 \<and> hd b = 45 \<and> all_digits (tl b))))"

definition is_id_card :: "document_data option \<Rightarrow> bool" where
  \<comment> \<open>the round adopted the result of \<open>readIDCard\<close>\<close>
  "is_id_card r = (case r of None \<Rightarrow> False | Some d \<Rightarrow> documentType d = ID_CARD)"









definition staging :: "effect list" where
  \<comment> \<open>the effects of an attempt between the scan and the reading of the document type\<close>
  "staging = [WaitFile Bmp 8000, WaitFile Ir 1500, Sleep 600]"

definition settles_before :: "'a reply \<Rightarrow> nat \<Rightarrow> bool" where
  "settles_before p ms =
     (case p of Resolves t _ \<Rightarrow> t < ms | Rejects t _ \<Rightarrow> t < ms | Pending \<Rightarrow> False)"

definition settled_by :: "'a reply \<Rightarrow> nat \<Rightarrow> bool" where
  "settled_by p ms =
     (case p of Resolves t _ \<Rightarrow> t \<le> ms | Rejects t _ \<Rightarrow> t \<le> ms | Pending \<Rightarrow> False)"

definition opens_in_time :: "bool reply \<Rightarrow> bool" where
  \<comment> \<open>the device reports that it has opened, before 3000 ms are over\<close>
  "opens_in_time r = (case r of Resolves t b \<Rightarrow> t < 3000 \<and> b | _ \<Rightarrow> False)"

definition inits_in_time :: "bool reply \<Rightarrow> bool" where
  "inits_in_time r = (case r of Resolves t b \<Rightarrow> t < 3000 \<and> b | _ \<Rightarrow> False)"

definition balanced :: "orch \<Rightarrow> bool" where
  "balanced s = (started s = finished s + (if isScanning s then 1 else 0))"

definition is_tick_or_manual :: "event \<Rightarrow> bool" where
  "is_tick_or_manual e = (case e of Tick _ \<Rightarrow> True | ManualScan \<Rightarrow> True | _ \<Rightarrow> False)"


definition card_scan :: scan_result where
  "card_scan = \<lparr>success = True, scanType = Card\<rparr>"

definition unknown_card_env :: attempt_env where
  \<comment> \<open>a card is scanned and staged with both images, its type is reported as unknown, and
      every reader answers \<open>null\<close>\<close>
  "unknown_card_env =
     \<lparr>scanAutoReply = Resolves 900 card_scan, staged = {Bmp, Ir},
      docTypeReply = Resolves 20 (Some UNKNOWN), mrzReply = (\<lambda>k. Resolves 30 None),
      licenseReply = (\<lambda>k. Resolves 30 None), idCardReply = (\<lambda>k. Resolves 30 None),
      alienReply = (\<lambda>k. Resolves 30 None), unlinkThrows = (\<lambda>a. False),
      renameThrows = (\<lambda>a. False), writeTextThrows = False, writeJsonThrows = False,
      fsError = str ''EBUSY'', clock = 100000\<rparr>"

definition no_document_env :: attempt_env where
  "no_document_env =
     unknown_card_env\<lparr>scanAutoReply := Resolves 40 \<lparr>success = False, scanType = NoScan\<rparr>,
                      staged := {}\<rparr>"

definition hang_env :: attempt_env where
  \<comment> \<open>the scan call itself never settles\<close>
  "hang_env = unknown_card_env\<lparr>scanAutoReply := Pending, staged := {}\<rparr>"

definition timeout_env :: attempt_env where
  \<comment> \<open>the scan call rejects after 12 seconds with the message of a timeout\<close>
  "timeout_env =
     unknown_card_env\<lparr>scanAutoReply :=
                        Rejects 12000 (timeout_message (str ''scanner.scanAuto'') 12000),
                      staged := {}\<rparr>"

definition id_card_named :: ocr_fields where
  \<comment> \<open>an ID-card result with a name of two letters and no number\<close>
  "id_card_named = no_fields\<lparr>name := Some (str ''AB''), idNo := Some []\<rparr>"

definition scanning_state :: orch where
  \<comment> \<open>the device has opened and a tick has started an attempt\<close>
  "scanning_state = run [DeviceOpens (Resolves 5 True), Tick 5000] initial"

definition opened_state :: orch where
  \<comment> \<open>the device has opened; nothing is in flight\<close>
  "opened_state = run [DeviceOpens (Resolves 5 True)] initial"

definition ready_renv :: reconnect_env where
  \<comment> \<open>the device closes and opens again at once\<close>
  "ready_renv =
     \<lparr>closeReply = Resolves 100 (), openReply = Resolves 700 True,
      destroyReply = Resolves 50 (), initReply = Resolves 400 True,
      reopenReply = Resolves 700 True\<rparr>"

definition reconnect_quick :: "effect list" where
  \<comment> \<open>the reconnect sequence when the device opens again at once\<close>
  "reconnect_quick =
     [Call Close, SendStatus False False, Sleep 250, Call Open, SendStatus True False]"

definition reconnect_full :: "bool \<Rightarrow> effect list" where
  \<comment> \<open>the reconnect sequence when it does not, and the new worker initialises\<close>
  "reconnect_full ok =
     [Call Close, SendStatus False False, Sleep 250, Call Open, SendStatus False False,
      Call Destroy, Call Init, Call Open, SendStatus ok False]"




definition specimen_mrz :: jsstr where
  "specimen_mrz = specimen_line1 @ specimen_line2"

definition passport_scan :: scan_result where
  "passport_scan = \<lparr>success = True, scanType = Passport\<rparr>"

definition passport_env :: attempt_env where
  \<comment> \<open>a passport is scanned and staged, and the first reading of its MRZ gives the two
      specimen lines\<close>
  "passport_env =
     unknown_card_env\<lparr>scanAutoReply := Resolves 900 passport_scan,
                      docTypeReply := Resolves 20 (Some PASSPORT),
                      mrzReply := (\<lambda>k. Resolves 30 (Some specimen_mrz))\<rparr>"





definition requests :: "(int \<times> reconnect_env) list \<Rightarrow> event list" where
  \<comment> \<open>reconnect requests, one after the other\<close>
  "requests reqs = map (\<lambda>(now, renv). ReconnectRequest now renv) reqs"

definition slow_env :: attempt_env where
  \<comment> \<open>the scan call answers after a minute that there is no document\<close>
  "slow_env =
     unknown_card_env\<lparr>scanAutoReply := Resolves 60000 \<lparr>success = False, scanType = NoScan\<rparr>,
                      staged := {}\<rparr>"

definition in_flight :: "orch \<Rightarrow> bool" where
  "in_flight s = (isScanning s \<and> \<not> stuck s)"

definition wedged_renv :: reconnect_env where
  \<comment> \<open>the device does not open again until the worker has been replaced\<close>
  "wedged_renv = ready_renv\<lparr>openReply := Pending\<rparr>"

definition dead_renv :: reconnect_env where
  \<comment> \<open>the device does not open again and the new worker does not initialise\<close>
  "dead_renv = ready_renv\<lparr>openReply := Pending, initReply := Pending\<rparr>"

definition doc_type_hang_env :: attempt_env where
  "doc_type_hang_env = unknown_card_env\<lparr>docTypeReply := Pending\<rparr>"

definition getter_hang_env :: attempt_env where
  "getter_hang_env = unknown_card_env\<lparr>licenseReply := (\<lambda>k. Pending)\<rparr>"

definition mrz_hang_env :: attempt_env where
  "mrz_hang_env = passport_env\<lparr>mrzReply := (\<lambda>k. Pending)\<rparr>"

section \<open>Properties of the MRZ parser\<close>

lemma set_trim: "set (trim s) \<subseteq> set s"
proof -
  have "set (trim s) \<subseteq> set (rev (dropWhile js_space s))"
    unfolding trim_def using set_dropWhileD by fastforce
  also have "\<dots> \<subseteq> set s" using set_dropWhileD by fastforce
  finally show ?thesis .
qed


text \<open>
  The first \<open>replace\<close> of \<open>normalizeMrz\<close> removes every control character, and the line
  feed is one of them: the cleaned text never holds a line feed, so \<open>split('\\n')\<close>
  returns one segment and the two-segment branch of the source is never taken.
\<close>

lemma mrz_clean_no_lf: "10 \<notin> set (mrz_clean mrzRaw)"
proof
  assume "10 \<in> set (mrz_clean mrzRaw)"
  then obtain c
    where c: "c \<in> set (trim (filter (\<lambda>c. c \<noteq> 13) (filter (\<lambda>c. \<not> is_control c) mrzRaw)))"
      and e: "(if c = 32 then 60 else c) = (10::nat)"
    by (auto simp: mrz_clean_def Let_def)
  from e have "c = 10" by (simp split: if_splits)
  moreover from c set_trim
  have "c \<in> set (filter (\<lambda>c. c \<noteq> 13) (filter (\<lambda>c. \<not> is_control c) mrzRaw))"
    by blast
  ultimately show False by (simp add: is_control_def)
qed

lemma split_on_absent: "d \<notin> set s \<Longrightarrow> split_on d s = [s]"
  by (induction s) auto

lemma normalizeMrz_single_segment:
  "normalizeMrz mrzRaw = (if mrzRaw = [] then None else split_cleaned (mrz_clean mrzRaw))"
proof -
  have nl: "10 \<notin> set (mrz_clean mrzRaw)" by (rule mrz_clean_no_lf)
  then have sp: "split_on 10 (mrz_clean mrzRaw) = [mrz_clean mrzRaw]" by (rule split_on_absent)
  have fl: "filter (\<lambda>c. c \<noteq> 10) (mrz_clean mrzRaw) = mrz_clean mrzRaw"
    using nl by (auto simp: filter_id_conv)
  show ?thesis
    by (simp add: normalizeMrz_def Let_def sp fl split_cleaned_def substring_def)
qed

lemma search_signature_bound: "search_signature c = Some p \<Longrightarrow> p < length c"
  by (induction c arbitrary: p) (auto split: if_splits)

lemma naive_split_lengths:
  "44 \<le> length c \<Longrightarrow> length c < 88 \<Longrightarrow>
   length (line1 (naive_split c)) = 44 \<and> length (line2 (naive_split c)) = 44"
  by (simp add: naive_split_def padEnd_def substring_def)












lemma replicate_numeral_unfold: "replicate (numeral k) x = x # replicate (pred_numeral k) x"
  by (simp add: numeral_eq_Suc)

lemmas mrz_eval = replicate_numeral_unfold str_def mrz_clean_def Let_def trim_def js_space_def
  is_control_def mrz_allowed_def is_upper_def is_digit_def padEnd_def digits5_def
  naive_split_def substring_def

lemma leading_signature_clean: "mrz_clean leading_signature_input = leading_signature_input"
  by (simp add: leading_signature_input_def mrz_eval)

lemma leading_signature_search: "search_signature leading_signature_input = Some 0"
  by (simp add: leading_signature_input_def mrz_eval)

lemma leading_signature_code:
  "normalizeMrz leading_signature_input =
     Some \<lparr>line1 = str ''AB12345<<<<<<<<<<<<<<<<<<<<<<<<<<<<<<<<<<<<<'',
           line2 = str ''<<<<<<<<<<<<<<<<<<<<<<<<<<<<<<<<<<<<<<<<<<<<''\<rparr>"
  unfolding normalizeMrz_single_segment leading_signature_clean
  by (simp add: split_cleaned_def leading_signature_search)
     (simp add: leading_signature_input_def mrz_eval)

lemma leading_signature_spec:
  "spec_normalize leading_signature_input =
     Some \<lparr>line1 = str ''<<<<<<<<<<<<<<<<<<<<<<<<<<<<<<<<<<<<<<<<<<<<'',
           line2 = str ''AB12345<<<<<<<<<<<<<<<<<<<<<<<<<<<<<<<<<<<<<''\<rparr>"
  by (simp add: spec_normalize_def spec_segments_def fit44_def leading_signature_input_def
      mrz_eval)

text \<open>
  Claim C8 as stated fails where the signature matches at position 0: the source asks for
  \<open>line2Start > 0\<close>, so it cuts at 44, where the claim has it cut at the match.
\<close>

theorem normalizeMrz_leading_signature_counterexample:
  "search_signature (mrz_clean leading_signature_input) = Some 0 \<and>
   normalizeMrz leading_signature_input \<noteq> spec_normalize leading_signature_input"
  unfolding leading_signature_code leading_signature_spec leading_signature_clean
    leading_signature_search
  by (simp add: str_def)

text \<open>
  Two more places where the source and the wording part. Segments delimited by line
  feeds are joined, since the line feed is removed with the control characters; and a cut
  at the signature pads the two parts but does not truncate them.
\<close>

lemma normalizeMrz_line_feed_discarded:
  "normalizeMrz (str ''AB'' @ [10] @ str ''CD'') = None \<and>
   spec_normalize (str ''AB'' @ [10] @ str ''CD'') =
     Some \<lparr>line1 = str ''AB<<<<<<<<<<<<<<<<<<<<<<<<<<<<<<<<<<<<<<<<<<'',
           line2 = str ''CD<<<<<<<<<<<<<<<<<<<<<<<<<<<<<<<<<<<<<<<<<<''\<rparr>"
  by (simp add: normalizeMrz_def spec_normalize_def spec_segments_def fit44_def mrz_eval)

lemma normalizeMrz_long_second_line:
  "map_option (\<lambda>l. (length (line1 l), length (line2 l)))
     (normalizeMrz (str ''P<A12345<<<<<<<<<<<<<<<<<<<<<<<<<<<<<<<<<<<<<<<<'')) = Some (44, 46)"
  by (simp add: normalizeMrz_def mrz_eval)

text \<open>
  Claim C8, amended. For an input without line feed, with \<open>c\<close> the cleaned text:
  \<open>normalizeMrz\<close> fails when \<open>c\<close> has fewer than 44 code units; cuts \<open>c\<close> at 44 and 88
  when it has 88 or more; and when it has 44 to 87, cuts at 44 if the signature does not
  match or matches at position 0, and cuts at the first match \<open>p\<close> if \<open>0 < p\<close>, here
  stated for the cuts that leave at most 44 code units on each side. In all these cases
  both lines have exactly 44 code units.
\<close>

theorem normalizeMrz_splits:
  assumes "10 \<notin> set mrzRaw"
  shows "(length (mrz_clean mrzRaw) < 44 \<longrightarrow> normalizeMrz mrzRaw = None)
    \<and> (88 \<le> length (mrz_clean mrzRaw) \<longrightarrow>
          normalizeMrz mrzRaw = Some \<lparr>line1 = take 44 (mrz_clean mrzRaw),
                                      line2 = take 44 (drop 44 (mrz_clean mrzRaw))\<rparr>)
    \<and> (44 \<le> length (mrz_clean mrzRaw) \<and> length (mrz_clean mrzRaw) < 88 \<longrightarrow>
         (search_signature (mrz_clean mrzRaw) = None
            \<or> search_signature (mrz_clean mrzRaw) = Some 0
            \<longrightarrow> normalizeMrz mrzRaw = Some (naive_split (mrz_clean mrzRaw)))
       \<and> (\<forall>p. search_signature (mrz_clean mrzRaw) = Some p \<and> 0 < p \<and> p \<le> 44
                \<and> length (mrz_clean mrzRaw) \<le> p + 44
            \<longrightarrow> normalizeMrz mrzRaw =
                  Some \<lparr>line1 = padEnd 44 60 (take p (mrz_clean mrzRaw)),
                        line2 = padEnd 44 60 (drop p (mrz_clean mrzRaw))\<rparr>))
    \<and> (\<forall>l. normalizeMrz mrzRaw = Some l
            \<and> (\<forall>p. search_signature (mrz_clean mrzRaw) = Some p
                     \<and> length (mrz_clean mrzRaw) < 88
                     \<longrightarrow> p \<le> 44 \<and> length (mrz_clean mrzRaw) \<le> p + 44)
          \<longrightarrow> length (line1 l) = 44 \<and> length (line2 l) = 44)"
proof (intro conjI impI allI)
  assume "length (mrz_clean mrzRaw) < 44"
  then show "normalizeMrz mrzRaw = None"
    by (simp add: normalizeMrz_single_segment split_cleaned_def)
next
  assume a: "88 \<le> length (mrz_clean mrzRaw)"
  then have "mrzRaw \<noteq> []" by (auto simp: mrz_clean_def trim_def)
  with a show "normalizeMrz mrzRaw = Some \<lparr>line1 = take 44 (mrz_clean mrzRaw),
                                      line2 = take 44 (drop 44 (mrz_clean mrzRaw))\<rparr>"
    by (simp add: normalizeMrz_single_segment split_cleaned_def)
next
  assume a: "44 \<le> length (mrz_clean mrzRaw) \<and> length (mrz_clean mrzRaw) < 88"
    and b: "search_signature (mrz_clean mrzRaw) = None
            \<or> search_signature (mrz_clean mrzRaw) = Some 0"
  from a have "mrzRaw \<noteq> []" by (auto simp: mrz_clean_def trim_def)
  with a b show "normalizeMrz mrzRaw = Some (naive_split (mrz_clean mrzRaw))"
    by (auto simp: normalizeMrz_single_segment split_cleaned_def)
next
  fix p
  assume a: "44 \<le> length (mrz_clean mrzRaw) \<and> length (mrz_clean mrzRaw) < 88"
    and b: "search_signature (mrz_clean mrzRaw) = Some p \<and> 0 < p \<and> p \<le> 44
                \<and> length (mrz_clean mrzRaw) \<le> p + 44"
  from a have "mrzRaw \<noteq> []" by (auto simp: mrz_clean_def trim_def)
  with a b show "normalizeMrz mrzRaw =
                  Some \<lparr>line1 = padEnd 44 60 (take p (mrz_clean mrzRaw)),
                        line2 = padEnd 44 60 (drop p (mrz_clean mrzRaw))\<rparr>"
    by (auto simp: normalizeMrz_single_segment split_cleaned_def)
next
  fix l
  assume a: "normalizeMrz mrzRaw = Some l
            \<and> (\<forall>p. search_signature (mrz_clean mrzRaw) = Some p
                     \<and> length (mrz_clean mrzRaw) < 88
                     \<longrightarrow> p \<le> 44 \<and> length (mrz_clean mrzRaw) \<le> p + 44)"
  then have s: "split_cleaned (mrz_clean mrzRaw) = Some l"
    by (simp add: normalizeMrz_single_segment split: if_splits)
  show "length (line1 l) = 44"
    using s a search_signature_bound [of "mrz_clean mrzRaw"]
    by (auto simp: split_cleaned_def naive_split_def padEnd_def substring_def
        split: if_splits option.splits)
  show "length (line2 l) = 44"
    using s a search_signature_bound [of "mrz_clean mrzRaw"]
    by (auto simp: split_cleaned_def naive_split_def padEnd_def substring_def
        split: if_splits option.splits)
qed

lemma damaged_capture_facts:
  "10 \<notin> set damaged_capture"
  "mrz_clean damaged_capture = damaged_capture"
  "length damaged_capture = 70"
  "search_signature damaged_capture = Some 26"
  "padEnd 44 60 (take 26 damaged_capture) = str ''P<UTOERIKSSON<<ANNA<MARIA<<<<<<<<<<<<<<<<<<<''"
  "padEnd 44 60 (drop 26 damaged_capture) = specimen_line2"
  by (simp_all add: damaged_capture_def specimen_line2_def mrz_eval)

theorem normalizeMrz_splits_witness:
  "10 \<notin> set damaged_capture
   \<and> 44 \<le> length (mrz_clean damaged_capture) \<and> length (mrz_clean damaged_capture) < 88
   \<and> search_signature (mrz_clean damaged_capture) = Some 26
   \<and> normalizeMrz damaged_capture =
       Some \<lparr>line1 = str ''P<UTOERIKSSON<<ANNA<MARIA<<<<<<<<<<<<<<<<<<<'',
             line2 = specimen_line2\<rparr>"
proof -
  have h: "10 \<notin> set damaged_capture" by (rule damaged_capture_facts)
  have r: "44 \<le> length (mrz_clean damaged_capture) \<and> length (mrz_clean damaged_capture) < 88"
    by (simp add: damaged_capture_facts)
  have p: "search_signature (mrz_clean damaged_capture) = Some 26 \<and> (0::nat) < 26
           \<and> (26::nat) \<le> 44 \<and> length (mrz_clean damaged_capture) \<le> 26 + 44"
    by (simp add: damaged_capture_facts)
  from normalizeMrz_splits [OF h] r p
  have "normalizeMrz damaged_capture =
          Some \<lparr>line1 = padEnd 44 60 (take 26 (mrz_clean damaged_capture)),
                line2 = padEnd 44 60 (drop 26 (mrz_clean damaged_capture))\<rparr>"
    by blast
  then show ?thesis
    using h r p by (simp add: damaged_capture_facts)
qed

section \<open>Properties of the validators\<close>

lemma all_digits_append: "all_digits (a @ b) = (all_digits a \<and> all_digits b)"
  by (simp add: all_digits_def)

lemma looksLikeKoreanRRN_pattern:
  "looksLikeKoreanRRN x = (case x of None \<Rightarrow> False | Some v \<Rightarrow> matches_rrn_pattern (trim v))"
proof (cases x)
  case None
  then show ?thesis by (simp add: looksLikeKoreanRRN_def)
next
  case (Some v)
  show ?thesis
  proof (cases "v = []")
    case True
    with Some show ?thesis
      by (simp add: looksLikeKoreanRRN_def matches_rrn_pattern_def trim_def)
  next
    case False
    define s where "s = trim v"
    have split: "s = take 6 s @ drop 6 s" by simp
    have d13: "length s = 13 \<Longrightarrow> all_digits s = (all_digits (take 6 s) \<and> all_digits (drop 6 s))"
      using all_digits_append [of "take 6 s" "drop 6 s"] by simp
    have hd14: "length s = 14 \<Longrightarrow> hd (drop 6 s) = s ! 6"
      by (simp add: hd_drop_conv_nth)
    have tl14: "tl (drop 6 s) = drop 7 s"
    proof -
      have "tl (drop 6 s) = drop (Suc 6) s" by (simp only: drop_Suc tl_drop)
      then show ?thesis by simp
    qed
    have eq: "((length s = 14 \<and> all_digits (take 6 s) \<and> charAt s 6 = Some 45 \<and> all_digits (drop 7 s))
            \<or> (length s = 13 \<and> all_digits s)) = matches_rrn_pattern s"
    proof (cases "length s = 13")
      case True
      then show ?thesis
        unfolding matches_rrn_pattern_def Let_def using d13 by auto
    next
      case n13: False
      show ?thesis
      proof (cases "length s = 14")
        case True
        then show ?thesis
          unfolding matches_rrn_pattern_def Let_def tl14 using hd14 by (auto simp: charAt_def)
      next
        case False
        with n13 show ?thesis
          unfolding matches_rrn_pattern_def Let_def by auto
      qed
    qed
    with Some False show ?thesis
      by (simp add: looksLikeKoreanRRN_def Let_def s_def)
  qed
qed

lemma short_never_rrn: "length v < 13 \<Longrightarrow> \<not> looksLikeKoreanRRN (Some v)"
proof -
  assume a: "length v < 13"
  have "length (trim v) \<le> length v"
    unfolding trim_def
    by (metis length_dropWhile_le length_rev order_trans)
  with a show ?thesis
    by (auto simp: looksLikeKoreanRRN_def Let_def)
qed

lemma adoptOcr_id_card:
  "is_id_card (adoptOcr license idCard alien) = looksLikeKoreanRRN (field idNo idCard)"
proof (cases "looksLikeKoreanRRN (field idNo idCard)")
  case True
  then obtain f where "idCard = Some f"
    by (cases idCard) (auto simp: field_def looksLikeKoreanRRN_def)
  with True show ?thesis by (simp add: adoptOcr_def tagged_def is_id_card_def)
next
  case False
  then show ?thesis
    by (cases license; cases alien) (auto simp: adoptOcr_def tagged_def is_id_card_def)
qed


lemma rrn_specimen: "looksLikeKoreanRRN (Some (str ''123456-1234567''))"
proof -
  have "trim (str ''123456-1234567'') = str ''123456-1234567''"
    by (simp add: trim_def str_def js_space_def)
  moreover have "matches_rrn_pattern (str ''123456-1234567'')"
    by (simp add: matches_rrn_pattern_def str_def all_digits_def is_digit_def)
  ultimately show ?thesis by (simp add: looksLikeKoreanRRN_pattern)
qed

text \<open>
  Claim C10 as stated fails on an ID-card result that carries a name of two letters and no
  number: the claim has it accepted through the name, the source adopts nothing.
\<close>

theorem id_card_name_fallback_counterexample:
  "2 \<le> length (trim (str ''AB''))
   \<and> name id_card_named = Some (str ''AB'')
   \<and> adoptOcr None (Some id_card_named) None = None
   \<and> \<not> is_id_card (adoptOcr None (Some id_card_named) None)"
  by (simp add: id_card_named_def no_fields_def adoptOcr_def field_def looksLikeKoreanRRN_def
      looksLikeDriverLicenseNo_def looksLikeAlienRegNo_def is_id_card_def trim_def str_def
      js_space_def)

text \<open>
  Claim C10, amended. A round of the OCR loop adopts the ID-card result exactly when its
  national-id field, trimmed, is thirteen digits with or without one hyphen after the
  sixth; the name plays no part. The value \<open>123456-1234567\<close> is accepted, and a value of
  seven digits is rejected whatever the other fields are.
\<close>

theorem id_card_accepted_by_number:
  "is_id_card (adoptOcr license idCard alien)
     = (case idCard of
          None \<Rightarrow> False
        | Some f \<Rightarrow> (case idNo f of None \<Rightarrow> False | Some v \<Rightarrow> matches_rrn_pattern (trim v)))
   \<and> adoptOcr license (Some (f\<lparr>idNo := Some (str ''123456-1234567'')\<rparr>)) alien
       = Some \<lparr>documentType = ID_CARD, ocr = f\<lparr>idNo := Some (str ''123456-1234567'')\<rparr>,
               parsed = None\<rparr>
   \<and> (length d = 7 \<and> all_digits d \<longrightarrow>
        \<not> looksLikeKoreanRRN (Some d)
        \<and> \<not> is_id_card (adoptOcr license (Some (f\<lparr>idNo := Some d\<rparr>)) alien))"
proof (intro conjI impI)
  show "is_id_card (adoptOcr license idCard alien)
     = (case idCard of
          None \<Rightarrow> False
        | Some f \<Rightarrow> (case idNo f of None \<Rightarrow> False | Some v \<Rightarrow> matches_rrn_pattern (trim v)))"
    unfolding adoptOcr_id_card looksLikeKoreanRRN_pattern
    by (cases idCard) (simp_all add: field_def)
next
  show "adoptOcr license (Some (f\<lparr>idNo := Some (str ''123456-1234567'')\<rparr>)) alien
       = Some \<lparr>documentType = ID_CARD, ocr = f\<lparr>idNo := Some (str ''123456-1234567'')\<rparr>,
               parsed = None\<rparr>"
    using rrn_specimen by (simp add: adoptOcr_def field_def tagged_def)
next
  assume a: "length d = 7 \<and> all_digits d"
  then show n: "\<not> looksLikeKoreanRRN (Some d)" by (intro short_never_rrn) simp
  show "\<not> is_id_card (adoptOcr license (Some (f\<lparr>idNo := Some d\<rparr>)) alien)"
    unfolding adoptOcr_id_card using n by (simp add: field_def)
qed

theorem id_card_accepted_by_number_witness:
  "length (str ''1234567'') = 7 \<and> all_digits (str ''1234567'')
   \<and> \<not> looksLikeKoreanRRN (Some (str ''1234567''))
   \<and> \<not> is_id_card (adoptOcr None
                       (Some (no_fields\<lparr>name := Some (str ''AB''), idNo := Some (str ''1234567'')\<rparr>))
                       None)
   \<and> is_id_card (adoptOcr None (Some (no_fields\<lparr>idNo := Some (str ''123456-1234567'')\<rparr>)) None)"
proof -
  have h1: "length (str ''1234567'') = 7 \<and> all_digits (str ''1234567'')"
    by (simp add: str_def all_digits_def is_digit_def)
  note c = id_card_accepted_by_number [of None "Some (no_fields\<lparr>idNo := Some (str ''123456-1234567'')\<rparr>)" None
      "no_fields\<lparr>name := Some (str ''AB'')\<rparr>" "str ''1234567''"]
  have t: "trim (str ''123456-1234567'') = str ''123456-1234567''"
    by (simp add: trim_def str_def js_space_def)
  have m: "matches_rrn_pattern (str ''123456-1234567'')"
    by (simp add: matches_rrn_pattern_def str_def all_digits_def is_digit_def)
  from c have 1: "is_id_card (adoptOcr None (Some (no_fields\<lparr>idNo := Some (str ''123456-1234567'')\<rparr>)) None)"
    using t m by simp
  from c h1 have 2: "\<not> looksLikeKoreanRRN (Some (str ''1234567''))
     \<and> \<not> is_id_card (adoptOcr None
            (Some (no_fields\<lparr>name := Some (str ''AB''), idNo := Some (str ''1234567'')\<rparr>)) None)"
    by simp
  from h1 1 2 show ?thesis by blast
qed

section \<open>Properties of asynchronous code\<close>

lemma after_Nil [simp]: "after [] x = x"
  by (cases x) simp_all

lemma after_after [simp]: "after es (after fs x) = after (es @ fs) x"
  by (cases x) simp_all

lemma effects_after [simp]: "effects (after es x) = es @ effects x"
  by (cases x) simp_all

lemma andThen_after [simp]: "andThen (after es x) f = after es (andThen x f)"
  by (cases x) simp_all


lemma orElse_after [simp]: "orElse (after es x) d = after es (orElse x d)"
  by (cases x) simp_all

lemma call_simps [simp]:
  "call c (Resolves t v) = Returns v [Call c]"
  "call c (Rejects t m) = Throws m [Call c]"
  "call c Pending = Hangs [Call c]"
  by (simp_all add: call_def)

lemma effects_call [simp]: "effects (call c p) = [Call c]"
  by (cases p) simp_all



lemma withTimeout_settles:
  "settled_by (withTimeout p ms label) ms \<and> withTimeout p ms label \<noteq> Pending"
  by (cases p) (simp_all add: withTimeout_def settled_by_def)

lemma withTimeout_late:
  "\<not> settles_before p ms \<Longrightarrow> withTimeout p ms label = Rejects ms (timeout_message label ms)"
  by (cases p) (simp_all add: withTimeout_def settles_before_def)

lemma withTimeout_early: "settles_before p ms \<Longrightarrow> withTimeout p ms label = p"
  by (cases p) (simp_all add: withTimeout_def settles_before_def)

lemma guarded_call_returns:
  "\<exists>v. orElse (call c (withTimeout p ms label)) d = Returns v [Call c]"
  by (cases p) (simp_all add: withTimeout_def)

section \<open>Properties of one scan attempt\<close>
























section \<open>Properties of the control loop\<close>

lemma tryOpenDevice_eq:
  "tryOpenDevice r s =
     (if \<not> scannerPresent s then Returns (False, s) []
      else Returns (opens_in_time r, s\<lparr>scannerOpened := opens_in_time r\<rparr>)
             [Call Open, SendStatus (opens_in_time r) False])"
  by (cases r) (auto simp: tryOpenDevice_def openCall_def opens_in_time_def withTimeout_def)

lemma closeDevice_eq:
  "closeDevice r s =
     (if scannerPresent s
      then Returns ((), s\<lparr>scannerOpened := False\<rparr>) [Call Close, SendStatus False False]
      else Returns ((), s) [])"
  by (cases r) (auto simp: closeDevice_def closeCall_def withTimeout_def)

lemma init_guarded:
  "orElse (call Init (initCall r)) False = Returns (inits_in_time r) [Call Init]"
  by (cases r) (auto simp: initCall_def inits_in_time_def withTimeout_def)

lemma destroy_guarded:
  "orElse (call Destroy (destroyCall r)) () = Returns () [Call Destroy]"
  by (cases r) (auto simp: destroyCall_def withTimeout_def)

lemma reconnect_scanner_eq:
  "reconnect_scanner renv s =
     (if \<not> scannerPresent s
      then (if inits_in_time (initReply renv)
            then Returns (opens_in_time (reopenReply renv),
                          s\<lparr>scannerPresent := True,
                            scannerOpened := opens_in_time (reopenReply renv)\<rparr>)
                   [Sleep 250, Call Init, Call Open,
                    SendStatus (opens_in_time (reopenReply renv)) False]
            else Returns (False, s\<lparr>scannerPresent := True, scannerOpened := False\<rparr>)
                   [Sleep 250, Call Init, SendStatus False True])
      else if opens_in_time (openReply renv)
      then Returns (True, s\<lparr>scannerOpened := True\<rparr>) reconnect_quick
      else if inits_in_time (initReply renv)
      then Returns (opens_in_time (reopenReply renv),
                    s\<lparr>scannerOpened := opens_in_time (reopenReply renv)\<rparr>)
             (reconnect_full (opens_in_time (reopenReply renv)))
      else Returns (False, s\<lparr>scannerOpened := False\<rparr>)
             [Call Close, SendStatus False False, Sleep 250, Call Open, SendStatus False False,
              Call Destroy, Call Init, SendStatus False True])"
  by (simp add: reconnect_scanner_def tryOpenDevice_eq closeDevice_eq init_guarded
      destroy_guarded reconnect_quick_def reconnect_full_def Let_def)

lemma emit_fields [simp]:
  "scannerPresent (emit es s) = scannerPresent s"
  "scannerOpened (emit es s) = scannerOpened s"
  "scanLoopTimer (emit es s) = scanLoopTimer s"
  "isScanning (emit es s) = isScanning s"
  "lastFailedAt (emit es s) = lastFailedAt s"
  "started (emit es s) = started s"
  "finished (emit es s) = finished s"
  "stuck (emit es s) = stuck s"
  "trace (emit es s) = trace s @ es"
  by (simp_all add: emit_def)

lemma open_fields [simp]:
  "scanLoopTimer (settle s (tryOpenDevice r s)) = scanLoopTimer s"
  "isScanning (settle s (tryOpenDevice r s)) = isScanning s"
  "lastFailedAt (settle s (tryOpenDevice r s)) = lastFailedAt s"
  "started (settle s (tryOpenDevice r s)) = started s"
  "finished (settle s (tryOpenDevice r s)) = finished s"
  "stuck (settle s (tryOpenDevice r s)) = stuck s"
  by (simp_all add: settle_def tryOpenDevice_eq)

lemma close_fields [simp]:
  "scanLoopTimer (settle s (closeDevice r s)) = scanLoopTimer s"
  "isScanning (settle s (closeDevice r s)) = isScanning s"
  "lastFailedAt (settle s (closeDevice r s)) = lastFailedAt s"
  "started (settle s (closeDevice r s)) = started s"
  "finished (settle s (closeDevice r s)) = finished s"
  "stuck (settle s (closeDevice r s)) = stuck s"
  by (simp_all add: settle_def closeDevice_eq)

lemma reconnect_fields [simp]:
  "scanLoopTimer (settle s (reconnect_scanner renv s)) = scanLoopTimer s"
  "isScanning (settle s (reconnect_scanner renv s)) = isScanning s"
  "lastFailedAt (settle s (reconnect_scanner renv s)) = lastFailedAt s"
  "started (settle s (reconnect_scanner renv s)) = started s"
  "finished (settle s (reconnect_scanner renv s)) = finished s"
  "stuck (settle s (reconnect_scanner renv s)) = stuck s"
  by (simp_all add: settle_def reconnect_scanner_eq)

lemma performScan_end_cases:
  "((\<exists>fs. performScan_try env = Hangs fs)
      \<and> isScanning (performScan_end env s) = isScanning s
      \<and> finished (performScan_end env s) = finished s
      \<and> lastFailedAt (performScan_end env s) = lastFailedAt s
      \<and> stuck (performScan_end env s))
   \<or> ((\<forall>fs. performScan_try env \<noteq> Hangs fs)
      \<and> \<not> isScanning (performScan_end env s)
      \<and> finished (performScan_end env s) = finished s + 1
      \<and> stuck (performScan_end env s) = stuck s)"
  by (cases "performScan_try env") (auto simp: performScan_end_def)

lemma performScan_end_fields [simp]:
  "scannerPresent (performScan_end env s) = scannerPresent s"
  "scannerOpened (performScan_end env s) = scannerOpened s"
  "scanLoopTimer (performScan_end env s) = scanLoopTimer s"
  "started (performScan_end env s) = started s"
  "trace (performScan_end env s) = trace s @ effects (performScan_try env)"
  by (cases "performScan_try env"; simp add: performScan_end_def)+

lemma tick_noop:
  "isScanning s \<or> now - lastFailedAt s < FAIL_BACKOFF_MS \<Longrightarrow> step (Tick now) s = s"
  by auto

lemma step_balanced: "balanced s \<Longrightarrow> balanced (step e s)"
proof (cases e)
  case (AttemptEnds env)
  assume b: "balanced s"
  show ?thesis
    using performScan_end_cases [of env s] b AttemptEnds
    by (auto simp: balanced_def)
qed (auto simp: balanced_def performScan_begin_def startScanLoop_def stopScanLoop_def)

lemma run_Cons: "run (e # es) s = run es (step e s)"
  by (simp add: run_def)

lemma run_Nil: "run [] s = s"
  by (simp add: run_def)

lemma run_append: "run (es @ [e]) s = step e (run es s)"
  by (simp add: run_def)

lemma run_balanced: "balanced s \<Longrightarrow> balanced (run es s)"
  by (induction es arbitrary: s) (simp_all add: run_Cons run_Nil step_balanced)

lemma initial_balanced: "balanced initial"
  by (simp add: balanced_def initial_def)

lemma step_starts:
  "started (step e s) = started s
   \<or> (\<not> isScanning s \<and> isScanning (step e s) \<and> started (step e s) = started s + 1)"
  by (cases e) (auto simp: performScan_begin_def startScanLoop_def stopScanLoop_def)

lemma step_flag_writers:
  "isScanning (step e s) = isScanning s
   \<or> started (step e s) = started s + 1 \<or> finished (step e s) = finished s + 1"
proof (cases e)
  case (AttemptEnds env)
  then show ?thesis using performScan_end_cases [of env s] by auto
qed (auto simp: performScan_begin_def startScanLoop_def stopScanLoop_def)

lemma step_finishes:
  "finished (step e s) = finished s
   \<or> (isScanning s \<and> \<not> isScanning (step e s) \<and> finished (step e s) = finished s + 1)"
proof (cases e)
  case (AttemptEnds env)
  then show ?thesis using performScan_end_cases [of env s] by auto
qed (auto simp: performScan_begin_def startScanLoop_def stopScanLoop_def)

lemma opened_state_eq:
  "opened_state =
     \<lparr>scannerPresent = True, scannerOpened = True, scanLoopTimer = True, isScanning = False,
      lastFailedAt = 0, trace = [Call Open, SendStatus True False], started = 0,
      finished = 0, stuck = False\<rparr>"
  by (simp add: opened_state_def run_def initial_def settle_def tryOpenDevice_eq
      opens_in_time_def emit_def)

lemma scanning_state_eq:
  "scanning_state =
     \<lparr>scannerPresent = True, scannerOpened = True, scanLoopTimer = True, isScanning = True,
      lastFailedAt = 0, trace = [Call Open, SendStatus True False], started = 1,
      finished = 0, stuck = False\<rparr>"
  by (simp add: scanning_state_def run_def initial_def settle_def tryOpenDevice_eq
      opens_in_time_def emit_def performScan_begin_def FAIL_BACKOFF_MS_def)

text \<open>
  Claim C1. A tick does nothing while \<open>isScanning\<close> is set or while less than
  \<open>FAIL_BACKOFF_MS\<close> have passed since \<open>lastFailedAt\<close>. Whatever events happen in
  whatever order from the initial state, the attempts started exceed the attempts finished
  by one while \<open>isScanning\<close> is set and by none otherwise, so never by two. An event
  starts an attempt only when \<open>isScanning\<close> is clear, and sets it; \<open>isScanning\<close>
  changes only where an attempt starts or ends; and an attempt finishes only while
  \<open>isScanning\<close> is set, and clears it.
\<close>

theorem one_attempt_in_flight:
  "(isScanning s \<or> now - lastFailedAt s < FAIL_BACKOFF_MS \<longrightarrow> step (Tick now) s = s)
   \<and> started (run es initial)
       = finished (run es initial) + (if isScanning (run es initial) then 1 else 0)
   \<and> started (run es initial) \<le> finished (run es initial) + 1
   \<and> (started (step e s) = started s
        \<or> (\<not> isScanning s \<and> isScanning (step e s) \<and> started (step e s) = started s + 1))
   \<and> (isScanning (step e s) = isScanning s
        \<or> started (step e s) = started s + 1 \<or> finished (step e s) = finished s + 1)
   \<and> (balanced s \<longrightarrow>
        finished (step e s) = finished s
        \<or> (isScanning s \<and> \<not> isScanning (step e s) \<and> finished (step e s) = finished s + 1))"
proof -
  have b: "balanced (run es initial)" by (rule run_balanced [OF initial_balanced])
  have 1: "isScanning s \<or> now - lastFailedAt s < FAIL_BACKOFF_MS \<longrightarrow> step (Tick now) s = s"
    using tick_noop by blast
  have 2: "started (run es initial)
       = finished (run es initial) + (if isScanning (run es initial) then 1 else 0)"
    using b by (simp add: balanced_def)
  have 3: "started (run es initial) \<le> finished (run es initial) + 1"
    using 2 by simp
  from 1 2 3 step_starts [of e s] step_flag_writers [of e s] step_finishes [of e s]
  show ?thesis by blast
qed

theorem one_attempt_in_flight_witness:
  "isScanning scanning_state \<and> balanced scanning_state
   \<and> step (Tick 5500) scanning_state = scanning_state
   \<and> started (run [DeviceOpens (Resolves 5 True), Tick 5000] initial)
       \<le> finished (run [DeviceOpens (Resolves 5 True), Tick 5000] initial) + 1
   \<and> finished (step ManualScan scanning_state) = finished scanning_state"
proof -
  have h: "isScanning scanning_state" and b: "balanced scanning_state"
    by (simp_all add: scanning_state_eq balanced_def)
  have n: "\<not> (isScanning scanning_state \<and> \<not> isScanning (step ManualScan scanning_state)
              \<and> finished (step ManualScan scanning_state) = finished scanning_state + 1)"
    by (simp add: scanning_state_eq performScan_begin_def)
  from one_attempt_in_flight [of scanning_state 5500 "[DeviceOpens (Resolves 5 True), Tick 5000]" ManualScan]
    h b n
  show ?thesis by blast
qed






















section \<open>Manual requests\<close>

lemma busy_step:
  assumes "isScanning s" "is_tick_or_manual e"
  shows "step e s = s"
  using assms by (cases e) (auto simp: is_tick_or_manual_def performScan_begin_def)

lemma busy_run:
  assumes "isScanning s" "list_all is_tick_or_manual es"
  shows "run es s = s"
  using assms
  by (induction es arbitrary: s) (simp_all add: run_Nil run_Cons busy_step)

lemma no_document_try: "performScan_try no_document_env = Returns NoDocument [Call ScanAuto]"
  by (simp add: performScan_try_def no_document_env_def unknown_card_env_def)

text \<open>
  Claim C4 as stated fails on two manual requests during an attempt: they change nothing,
  and when the attempt has ended, one attempt has started and finished and none is in
  flight or queued.
\<close>

theorem manual_scan_dropped_counterexample:
  "isScanning scanning_state \<and> scannerOpened scanning_state
   \<and> run [ManualScan, ManualScan] scanning_state = scanning_state
   \<and> started (run [ManualScan, ManualScan, AttemptEnds no_document_env] scanning_state) = 1
   \<and> finished (run [ManualScan, ManualScan, AttemptEnds no_document_env] scanning_state) = 1
   \<and> \<not> isScanning (run [ManualScan, ManualScan, AttemptEnds no_document_env] scanning_state)"
proof -
  have b: "isScanning scanning_state" "scannerOpened scanning_state"
    by (simp_all add: scanning_state_eq)
  have m: "run [ManualScan, ManualScan] scanning_state = scanning_state"
    by (rule busy_run [OF b(1)]) (simp add: is_tick_or_manual_def)
  have "run [ManualScan, ManualScan, AttemptEnds no_document_env] scanning_state
          = step (AttemptEnds no_document_env) (run [ManualScan, ManualScan] scanning_state)"
    using run_append [of "[ManualScan, ManualScan]" "AttemptEnds no_document_env"] by simp
  then have e: "run [ManualScan, ManualScan, AttemptEnds no_document_env] scanning_state
          = step (AttemptEnds no_document_env) scanning_state"
    unfolding m .
  have "started (step (AttemptEnds no_document_env) scanning_state) = 1
      \<and> finished (step (AttemptEnds no_document_env) scanning_state) = 1
      \<and> \<not> isScanning (step (AttemptEnds no_document_env) scanning_state)"
    by (simp add: scanning_state_eq performScan_end_def no_document_try)
  with b m show ?thesis unfolding e by blast
qed

text \<open>
  Claim C4, amended. A manual request that arrives while an attempt is in flight is dropped:
  any ticks and manual requests in that time leave the state as it is, so the attempt ends
  as it would have without them and no further attempt has started. A manual request that
  arrives while no attempt is in flight and the scanner is connected starts an attempt at
  once, without a look at the backoff.
\<close>

theorem manual_scan_mid_flight_dropped:
  assumes "isScanning s" "list_all is_tick_or_manual es"
  shows "run es s = s
       \<and> step (AttemptEnds env) (run es s) = step (AttemptEnds env) s
       \<and> started (step (AttemptEnds env) (run es s)) = started s
       \<and> (\<not> stuck s \<and> performScan_try env = Returns out fs \<longrightarrow>
            \<not> isScanning (step (AttemptEnds env) (run es s))
            \<and> finished (step (AttemptEnds env) (run es s)) = finished s + 1)
       \<and> (\<not> isScanning t \<and> scannerPresent t \<and> scannerOpened t \<longrightarrow>
            isScanning (step ManualScan t) \<and> started (step ManualScan t) = started t + 1
            \<and> lastFailedAt (step ManualScan t) = lastFailedAt t)"
proof -
  have r: "run es s = s" by (rule busy_run [OF assms])
  have 3: "started (step (AttemptEnds env) s) = started s" by simp
  have 4: "\<not> stuck s \<and> performScan_try env = Returns out fs \<longrightarrow>
            \<not> isScanning (step (AttemptEnds env) s)
            \<and> finished (step (AttemptEnds env) s) = finished s + 1"
    using assms(1) by (auto simp: performScan_end_def)
  have 5: "\<not> isScanning t \<and> scannerPresent t \<and> scannerOpened t \<longrightarrow>
            isScanning (step ManualScan t) \<and> started (step ManualScan t) = started t + 1
            \<and> lastFailedAt (step ManualScan t) = lastFailedAt t"
    by (simp add: performScan_begin_def)
  from 3 4 5 show ?thesis unfolding r by blast
qed

theorem manual_scan_mid_flight_dropped_witness:
  "isScanning scanning_state \<and> list_all is_tick_or_manual [ManualScan, Tick 5500, ManualScan]
   \<and> \<not> stuck scanning_state
   \<and> performScan_try no_document_env = Returns NoDocument [Call ScanAuto]
   \<and> run [ManualScan, Tick 5500, ManualScan] scanning_state = scanning_state
   \<and> started (step (AttemptEnds no_document_env)
                (run [ManualScan, Tick 5500, ManualScan] scanning_state)) = 1
   \<and> \<not> isScanning (step (AttemptEnds no_document_env)
                      (run [ManualScan, Tick 5500, ManualScan] scanning_state))
   \<and> \<not> isScanning opened_state \<and> scannerPresent opened_state \<and> scannerOpened opened_state
   \<and> isScanning (step ManualScan opened_state)"
proof -
  have h1: "isScanning scanning_state" and h3: "\<not> stuck scanning_state"
    and s1: "started scanning_state = 1"
    by (simp_all add: scanning_state_eq)
  have h2: "list_all is_tick_or_manual [ManualScan, Tick 5500, ManualScan]"
    by (simp add: is_tick_or_manual_def)
  have o: "\<not> isScanning opened_state" "scannerPresent opened_state" "scannerOpened opened_state"
    by (simp_all add: opened_state_eq)
  note c = manual_scan_mid_flight_dropped [OF h1 h2, of no_document_env NoDocument "[Call ScanAuto]" opened_state]
  from c have a: "run [ManualScan, Tick 5500, ManualScan] scanning_state = scanning_state"
    by blast
  from c s1 have b: "started (step (AttemptEnds no_document_env)
                (run [ManualScan, Tick 5500, ManualScan] scanning_state)) = 1"
    by simp
  from c h3 no_document_try have d: "\<not> isScanning (step (AttemptEnds no_document_env)
                      (run [ManualScan, Tick 5500, ManualScan] scanning_state))"
    by blast
  from c o have e: "isScanning (step ManualScan opened_state)" by blast
  from h1 h2 h3 no_document_try a b d o e show ?thesis by blast
qed

section \<open>Failed attempts, reconnects and deadlines\<close>






lemma tick_starts:
  assumes "scanLoopTimer s" "scannerPresent s" "scannerOpened s" "\<not> isScanning s"
    and "FAIL_BACKOFF_MS \<le> now - lastFailedAt s"
  shows "step (Tick now) s = s\<lparr>isScanning := True, started := started s + 1\<rparr>"
  using assms by (simp add: performScan_begin_def)




lemma reconnect_trace_quick:
  assumes "scannerPresent s" "opens_in_time (openReply renv)"
  shows "step (ReconnectRequest now renv) s
           = emit reconnect_quick (s\<lparr>scannerOpened := True\<rparr>)"
  using assms by (simp add: settle_def reconnect_scanner_eq)

lemma reconnect_trace_full:
  assumes "scannerPresent s" "\<not> opens_in_time (openReply renv)" "inits_in_time (initReply renv)"
  shows "step (ReconnectRequest now renv) s
           = emit (reconnect_full (opens_in_time (reopenReply renv)))
               (s\<lparr>scannerOpened := opens_in_time (reopenReply renv)\<rparr>)"
  using assms by (simp add: settle_def reconnect_scanner_eq)

lemma reconnect_pause:
  "count_list (trace (step (ReconnectRequest now renv) s)) (Sleep 250)
     = count_list (trace s) (Sleep 250) + 1"
  by (simp add: settle_def reconnect_scanner_eq reconnect_quick_def reconnect_full_def)

lemma reconnect_close:
  "scannerPresent s \<Longrightarrow>
   count_list (trace (step (ReconnectRequest now renv) s)) (Call Close)
     = count_list (trace s) (Call Close) + 1
   \<and> scannerPresent (step (ReconnectRequest now renv) s)"
  by (simp add: settle_def reconnect_scanner_eq reconnect_quick_def reconnect_full_def)

lemma requests_pause:
  "count_list (trace (run (requests reqs) s)) (Sleep 250)
     = count_list (trace s) (Sleep 250) + length reqs"
proof (induction reqs arbitrary: s)
  case Nil
  then show ?case by (simp add: requests_def run_Nil)
next
  case (Cons q reqs)
  obtain now renv where q: "q = (now, renv)" by (cases q)
  have "run (requests (q # reqs)) s = run (requests reqs) (step (ReconnectRequest now renv) s)"
    unfolding q by (simp add: requests_def run_Cons)
  then show ?case
    using Cons.IH [of "step (ReconnectRequest now renv) s"] reconnect_pause [of now renv s]
    by simp
qed

lemma requests_close:
  "scannerPresent s \<Longrightarrow>
   count_list (trace (run (requests reqs) s)) (Call Close)
     = count_list (trace s) (Call Close) + length reqs"
proof (induction reqs arbitrary: s)
  case Nil
  then show ?case by (simp add: requests_def run_Nil)
next
  case (Cons q reqs)
  obtain now renv where q: "q = (now, renv)" by (cases q)
  have r: "run (requests (q # reqs)) s = run (requests reqs) (step (ReconnectRequest now renv) s)"
    unfolding q by (simp add: requests_def run_Cons)
  note c = reconnect_close [OF Cons.prems, of now renv]
  from c have p: "scannerPresent (step (ReconnectRequest now renv) s)" by blast
  show ?case
    unfolding r using Cons.IH [OF p] c by simp
qed

lemma ready_opens: "opens_in_time (openReply ready_renv)"
  by (simp add: ready_renv_def opens_in_time_def)

text \<open>
  Claim C6 as stated fails on two reconnect requests two seconds apart: the handler runs
  twice, and the device is closed twice.
\<close>

theorem two_reconnects_counterexample:
  "(12000 :: int) - 10000 < 3000
   \<and> trace (run [ReconnectRequest 10000 ready_renv, ReconnectRequest 12000 ready_renv]
              opened_state)
       = trace opened_state
         @ [Call Close, SendStatus False False, Sleep 250, Call Open, SendStatus True False]
         @ [Call Close, SendStatus False False, Sleep 250, Call Open, SendStatus True False]
   \<and> count_list
        (trace (run [ReconnectRequest 10000 ready_renv, ReconnectRequest 12000 ready_renv]
                  opened_state)) (Call Close) = 2"
  by (simp add: run_Cons run_Nil settle_def reconnect_scanner_eq ready_opens opened_state_eq
      reconnect_quick_def)

text \<open>
  Claim C6, amended. Every reconnect request runs the handler, however soon after the one
  before: each request pauses once for 250 ms, and with a scanner client each closes the
  device once. The handler closes the device, pauses 250 ms and opens it again; only when
  that fails does it destroy the worker, create and initialise a new one and open the device
  once more, or report that the initialisation failed. It neither stops nor starts the
  scan loop, and does not touch \<open>isScanning\<close>.
\<close>

theorem every_reconnect_request_runs:
  "count_list (trace (step (ReconnectRequest now renv) s)) (Sleep 250)
     = count_list (trace s) (Sleep 250) + 1
   \<and> count_list (trace (run (requests reqs) s)) (Sleep 250)
       = count_list (trace s) (Sleep 250) + length reqs
   \<and> (scannerPresent s \<longrightarrow>
        count_list (trace (run (requests reqs) s)) (Call Close)
          = count_list (trace s) (Call Close) + length reqs)
   \<and> scanLoopTimer (step (ReconnectRequest now renv) s) = scanLoopTimer s
   \<and> isScanning (step (ReconnectRequest now renv) s) = isScanning s
   \<and> (scannerPresent s \<and> opens_in_time (openReply renv) \<longrightarrow>
        step (ReconnectRequest now renv) s
          = emit [Call Close, SendStatus False False, Sleep 250, Call Open,
                  SendStatus True False]
              (s\<lparr>scannerOpened := True\<rparr>))
   \<and> (scannerPresent s \<and> \<not> opens_in_time (openReply renv) \<and> inits_in_time (initReply renv) \<longrightarrow>
        step (ReconnectRequest now renv) s
          = emit [Call Close, SendStatus False False, Sleep 250, Call Open,
                  SendStatus False False, Call Destroy, Call Init, Call Open,
                  SendStatus (opens_in_time (reopenReply renv)) False]
              (s\<lparr>scannerOpened := opens_in_time (reopenReply renv)\<rparr>))
   \<and> (scannerPresent s \<and> \<not> opens_in_time (openReply renv) \<and> \<not> inits_in_time (initReply renv) \<longrightarrow>
        step (ReconnectRequest now renv) s
          = emit [Call Close, SendStatus False False, Sleep 250, Call Open,
                  SendStatus False False, Call Destroy, Call Init, SendStatus False True]
              (s\<lparr>scannerOpened := False\<rparr>))"
proof -
  have 4: "scanLoopTimer (step (ReconnectRequest now renv) s) = scanLoopTimer s"
    and 5: "isScanning (step (ReconnectRequest now renv) s) = isScanning s"
    by simp_all
  have 6: "scannerPresent s \<and> opens_in_time (openReply renv) \<longrightarrow>
        step (ReconnectRequest now renv) s
          = emit [Call Close, SendStatus False False, Sleep 250, Call Open,
                  SendStatus True False]
              (s\<lparr>scannerOpened := True\<rparr>)"
    using reconnect_trace_quick [of s renv now] by (simp add: reconnect_quick_def)
  have 7: "scannerPresent s \<and> \<not> opens_in_time (openReply renv) \<and> inits_in_time (initReply renv) \<longrightarrow>
        step (ReconnectRequest now renv) s
          = emit [Call Close, SendStatus False False, Sleep 250, Call Open,
                  SendStatus False False, Call Destroy, Call Init, Call Open,
                  SendStatus (opens_in_time (reopenReply renv)) False]
              (s\<lparr>scannerOpened := opens_in_time (reopenReply renv)\<rparr>)"
    using reconnect_trace_full [of s renv now] by (simp add: reconnect_full_def)
  have 8: "scannerPresent s \<and> \<not> opens_in_time (openReply renv) \<and> \<not> inits_in_time (initReply renv) \<longrightarrow>
        step (ReconnectRequest now renv) s
          = emit [Call Close, SendStatus False False, Sleep 250, Call Open,
                  SendStatus False False, Call Destroy, Call Init, SendStatus False True]
              (s\<lparr>scannerOpened := False\<rparr>)"
    by (simp add: settle_def reconnect_scanner_eq)
  from reconnect_pause [of now renv s] requests_pause [of reqs s] requests_close [of s reqs]
    4 5 6 7 8
  show ?thesis by blast
qed

theorem every_reconnect_request_runs_witness:
  "scannerPresent opened_state \<and> opens_in_time (openReply ready_renv)
   \<and> count_list (trace opened_state) (Call Close) = 0
   \<and> count_list
        (trace (run (requests [(10000, ready_renv), (12000, ready_renv)]) opened_state))
        (Call Close) = 2
   \<and> step (ReconnectRequest 10000 ready_renv) opened_state
       = emit [Call Close, SendStatus False False, Sleep 250, Call Open, SendStatus True False]
           (opened_state\<lparr>scannerOpened := True\<rparr>)
   \<and> \<not> opens_in_time (openReply wedged_renv) \<and> inits_in_time (initReply wedged_renv)
   \<and> step (ReconnectRequest 10000 wedged_renv) opened_state
       = emit [Call Close, SendStatus False False, Sleep 250, Call Open,
               SendStatus False False, Call Destroy, Call Init, Call Open,
               SendStatus True False]
           (opened_state\<lparr>scannerOpened := True\<rparr>)
   \<and> \<not> opens_in_time (openReply dead_renv) \<and> \<not> inits_in_time (initReply dead_renv)
   \<and> step (ReconnectRequest 10000 dead_renv) opened_state
       = emit [Call Close, SendStatus False False, Sleep 250, Call Open,
               SendStatus False False, Call Destroy, Call Init, SendStatus False True]
           (opened_state\<lparr>scannerOpened := False\<rparr>)"
proof -
  have h: "scannerPresent opened_state" and z: "count_list (trace opened_state) (Call Close) = 0"
    by (simp_all add: opened_state_eq)
  note c = every_reconnect_request_runs [of 10000 ready_renv opened_state "[(10000, ready_renv), (12000, ready_renv)]"]
  from c h have "count_list
        (trace (run (requests [(10000, ready_renv), (12000, ready_renv)]) opened_state))
        (Call Close)
      = count_list (trace opened_state) (Call Close)
        + length [(10000 :: int, ready_renv), (12000, ready_renv)]"
    by blast
  then have a: "count_list
        (trace (run (requests [(10000, ready_renv), (12000, ready_renv)]) opened_state))
        (Call Close) = 2"
    unfolding z by simp
  from c h ready_opens have b: "step (ReconnectRequest 10000 ready_renv) opened_state
       = emit [Call Close, SendStatus False False, Sleep 250, Call Open, SendStatus True False]
           (opened_state\<lparr>scannerOpened := True\<rparr>)"
    by blast
  have w: "\<not> opens_in_time (openReply wedged_renv)" "inits_in_time (initReply wedged_renv)"
    and wo: "opens_in_time (reopenReply wedged_renv) = True"
    by (simp_all add: wedged_renv_def ready_renv_def opens_in_time_def inits_in_time_def)
  note d = every_reconnect_request_runs [of 10000 wedged_renv opened_state "[]"]
  from d h w have "step (ReconnectRequest 10000 wedged_renv) opened_state
       = emit [Call Close, SendStatus False False, Sleep 250, Call Open,
               SendStatus False False, Call Destroy, Call Init, Call Open,
               SendStatus (opens_in_time (reopenReply wedged_renv)) False]
           (opened_state\<lparr>scannerOpened := opens_in_time (reopenReply wedged_renv)\<rparr>)"
    by blast
  then have b2: "step (ReconnectRequest 10000 wedged_renv) opened_state
       = emit [Call Close, SendStatus False False, Sleep 250, Call Open,
               SendStatus False False, Call Destroy, Call Init, Call Open,
               SendStatus True False]
           (opened_state\<lparr>scannerOpened := True\<rparr>)"
    unfolding wo .
  have x: "\<not> opens_in_time (openReply dead_renv)" "\<not> inits_in_time (initReply dead_renv)"
    by (simp_all add: dead_renv_def ready_renv_def opens_in_time_def inits_in_time_def)
  note e = every_reconnect_request_runs [of 10000 dead_renv opened_state "[]"]
  from e h x have b3: "step (ReconnectRequest 10000 dead_renv) opened_state
       = emit [Call Close, SendStatus False False, Sleep 250, Call Open,
               SendStatus False False, Call Destroy, Call Init, SendStatus False True]
           (opened_state\<lparr>scannerOpened := False\<rparr>)"
    by blast
  from h ready_opens z a b w b2 x b3 show ?thesis by blast
qed

section \<open>Deadlines\<close>

lemma stuck_step:
  assumes "isScanning s" "stuck s"
  shows "isScanning (step e s) \<and> stuck (step e s) \<and> started (step e s) = started s
       \<and> finished (step e s) = finished s"
  using assms by (cases e) (auto simp: performScan_begin_def startScanLoop_def stopScanLoop_def)

lemma stuck_run:
  assumes "isScanning s" "stuck s"
  shows "isScanning (run es s) \<and> stuck (run es s) \<and> started (run es s) = started s
       \<and> finished (run es s) = finished s"
  using assms
proof (induction es arbitrary: s)
  case Nil
  then show ?case by (simp add: run_Nil)
next
  case (Cons e es)
  note st = stuck_step [OF Cons.prems, of e]
  from st have a: "isScanning (step e s)" "stuck (step e s)" by blast+
  from Cons.IH [OF a] st show ?case unfolding run_Cons by simp
qed

lemma in_flight_hangs:
  assumes "in_flight s" "performScan_try env = Hangs es"
  shows "step (AttemptEnds env) s = emit es (s\<lparr>stuck := True\<rparr>)"
  using assms by (simp add: in_flight_def performScan_end_def)

lemma hang_blocks:
  assumes "in_flight s" "performScan_try env = Hangs es"
  shows "isScanning (run evs (step (AttemptEnds env) s))
       \<and> started (run evs (step (AttemptEnds env) s)) = started s
       \<and> finished (run evs (step (AttemptEnds env) s)) = finished s"
proof -
  define s' where "s' = step (AttemptEnds env) s"
  have e: "s' = emit es (s\<lparr>stuck := True\<rparr>)"
    unfolding s'_def by (rule in_flight_hangs [OF assms])
  from assms(1) have a: "isScanning s'" "stuck s'" "started s' = started s"
    "finished s' = finished s"
    unfolding e by (simp_all add: in_flight_def)
  from stuck_run [OF a(1,2), of evs] a(3,4) show ?thesis
    unfolding s'_def by simp
qed

lemma reconnect_returns: "\<exists>v es. reconnect_scanner renv s = Returns v es"
  unfolding reconnect_scanner_eq by auto

lemma mrzLoop_pending: "rs i = Pending \<Longrightarrow> mrzLoop rs i (Suc n) = Hangs [Call ReadMRZ]"
  by simp

lemma ocrLoop_pending:
  "licenseReply env i = Pending \<Longrightarrow> ocrLoop env i (Suc n) = Hangs [Call ReadDriverLicense]"
  by simp

lemma ten: "10 = Suc 9"
  by simp

lemma hang_try: "performScan_try hang_env = Hangs [Call ScanAuto]"
  by (simp add: performScan_try_def hang_env_def unknown_card_env_def)

lemma slow_try: "performScan_try slow_env = Returns NoDocument [Call ScanAuto]"
  by (simp add: performScan_try_def slow_env_def unknown_card_env_def)

text \<open>
  Claim C7 as stated fails on a scan call that never settles: the attempt stays in flight,
  and ticks and manual requests long after start nothing. A scan call that answers after
  a minute is waited for; no deadline fails it.
\<close>

theorem hung_scan_counterexample:
  "scanAutoReply hang_env = Pending
   \<and> performScan_try hang_env = Hangs [Call ScanAuto]
   \<and> run [AttemptEnds hang_env, Tick 100000, ManualScan, Tick 1000000] scanning_state
       = scanning_state\<lparr>trace := [Call Open, SendStatus True False, Call ScanAuto],
                        stuck := True\<rparr>
   \<and> isScanning (run [AttemptEnds hang_env, Tick 100000, ManualScan, Tick 1000000]
                    scanning_state)
   \<and> scanAutoReply slow_env = Resolves 60000 \<lparr>success = False, scanType = NoScan\<rparr>
   \<and> performScan_try slow_env = Returns NoDocument [Call ScanAuto]"
proof -
  have e: "scanAutoReply hang_env = Pending"
    "scanAutoReply slow_env = Resolves 60000 \<lparr>success = False, scanType = NoScan\<rparr>"
    by (simp_all add: hang_env_def slow_env_def)
  have r: "run [AttemptEnds hang_env, Tick 100000, ManualScan, Tick 1000000] scanning_state
       = scanning_state\<lparr>trace := [Call Open, SendStatus True False, Call ScanAuto],
                        stuck := True\<rparr>"
    by (simp add: run_Cons run_Nil scanning_state_eq performScan_end_def hang_try emit_def
        performScan_begin_def)
  have i: "isScanning (scanning_state\<lparr>trace := [Call Open, SendStatus True False, Call ScanAuto],
                        stuck := True\<rparr>)"
    by (simp add: scanning_state_eq)
  from e hang_try slow_try r i show ?thesis by simp
qed

text \<open>
  Claim C7, amended. A call wrapped in \<open>withTimeout\<close> settles within its deadline: as the
  call itself when that settles before, else by rejecting with the timeout message. The
  open call is wrapped with 3000 ms and the close call with 2000 ms; the caller catches the
  rejection, so \<open>tryOpenDevice\<close> reports whether the device opened in time,
  \<open>closeDevice\<close> goes on whatever the device does, and the reconnect handler always
  returns. The calls of an attempt carry no deadline. A scan call that resolves is waited
  for however long it takes; one that rejects ends the attempt in the \<open>catch\<close> block,
  which clears \<open>isScanning\<close>; a scan, document-type, MRZ or getter call that never
  settles leaves the attempt waiting, and from then on, whatever events follow,
  \<open>isScanning\<close> stays set and no attempt starts or finishes.
\<close>

theorem deadlines_on_open_and_close:
  "settled_by (withTimeout p ms label) ms
   \<and> (\<not> settles_before p ms \<longrightarrow>
        withTimeout p ms label = Rejects ms (timeout_message label ms))
   \<and> (settles_before p ms \<longrightarrow> withTimeout p ms label = p)
   \<and> settled_by (openCall r) 3000 \<and> settled_by (closeCall c) 2000
   \<and> (settles_before r 3000 \<longrightarrow> openCall r = r)
   \<and> (\<not> settles_before r 3000 \<longrightarrow>
        openCall r = Rejects 3000 (timeout_message (str ''scanner.open'') 3000))
   \<and> (settles_before c 2000 \<longrightarrow> closeCall c = c)
   \<and> (\<not> settles_before c 2000 \<longrightarrow>
        closeCall c = Rejects 2000 (timeout_message (str ''scanner.close'') 2000))
   \<and> (scannerPresent s \<longrightarrow>
        tryOpenDevice r s
          = Returns (opens_in_time r, s\<lparr>scannerOpened := opens_in_time r\<rparr>)
              [Call Open, SendStatus (opens_in_time r) False]
        \<and> closeDevice c s
            = Returns ((), s\<lparr>scannerOpened := False\<rparr>) [Call Close, SendStatus False False])
   \<and> (\<exists>v es. reconnect_scanner renv s = Returns v es)
   \<and> (scanAutoReply env = Resolves t res \<and> \<not> success res \<longrightarrow>
        performScan_try env = Returns NoDocument [Call ScanAuto])
   \<and> (scanAutoReply env = Rejects t m \<longrightarrow>
        performScan_try env = Throws m [Call ScanAuto]
        \<and> (in_flight s \<longrightarrow>
             \<not> isScanning (step (AttemptEnds env) s)
             \<and> finished (step (AttemptEnds env) s) = finished s + 1))
   \<and> (scanAutoReply env = Pending \<longrightarrow> performScan_try env = Hangs [Call ScanAuto])
   \<and> (scanAutoReply env = Resolves t res \<and> success res \<longrightarrow>
        (docTypeReply env = Pending \<longrightarrow>
           performScan_try env = Hangs (Call ScanAuto # staging @ [Call GetDocumentType]))
        \<and> (docTypeReply env = Resolves u dt \<and> scanType res = Passport
             \<and> mrzReply env 0 = Pending \<longrightarrow>
             performScan_try env
               = Hangs (Call ScanAuto # staging @ [Call GetDocumentType, Call ReadMRZ]))
        \<and> (docTypeReply env = Resolves u dt \<and> scanType res = Card
             \<and> licenseReply env 0 = Pending \<longrightarrow>
             performScan_try env
               = Hangs (Call ScanAuto # staging
                        @ [Call GetDocumentType, Call ReadDriverLicense])))
   \<and> (in_flight s \<and> performScan_try env = Hangs es \<longrightarrow>
        isScanning (run evs (step (AttemptEnds env) s))
        \<and> started (run evs (step (AttemptEnds env) s)) = started s
        \<and> finished (run evs (step (AttemptEnds env) s)) = finished s)"
proof -
  have 1: "settled_by (withTimeout p ms label) ms"
    using withTimeout_settles by blast
  have 2: "\<not> settles_before p ms \<longrightarrow>
        withTimeout p ms label = Rejects ms (timeout_message label ms)"
    using withTimeout_late by blast
  have 3: "settles_before p ms \<longrightarrow> withTimeout p ms label = p"
    using withTimeout_early by blast
  have c1: "settled_by (openCall r) 3000" and c2: "settled_by (closeCall c) 2000"
    unfolding openCall_def closeCall_def using withTimeout_settles by blast+
  have c3: "settles_before r 3000 \<longrightarrow> openCall r = r"
    and c4: "\<not> settles_before r 3000 \<longrightarrow>
        openCall r = Rejects 3000 (timeout_message (str ''scanner.open'') 3000)"
    unfolding openCall_def using withTimeout_early withTimeout_late by blast+
  have c5: "settles_before c 2000 \<longrightarrow> closeCall c = c"
    and c6: "\<not> settles_before c 2000 \<longrightarrow>
        closeCall c = Rejects 2000 (timeout_message (str ''scanner.close'') 2000)"
    unfolding closeCall_def using withTimeout_early withTimeout_late by blast+
  have 4: "scannerPresent s \<longrightarrow>
        tryOpenDevice r s
          = Returns (opens_in_time r, s\<lparr>scannerOpened := opens_in_time r\<rparr>)
              [Call Open, SendStatus (opens_in_time r) False]
        \<and> closeDevice c s
            = Returns ((), s\<lparr>scannerOpened := False\<rparr>) [Call Close, SendStatus False False]"
    by (simp add: tryOpenDevice_eq closeDevice_eq)
  have 6: "scanAutoReply env = Resolves t res \<and> \<not> success res \<longrightarrow>
        performScan_try env = Returns NoDocument [Call ScanAuto]"
    by (simp add: performScan_try_def)
  have 7: "scanAutoReply env = Rejects t m \<longrightarrow>
        performScan_try env = Throws m [Call ScanAuto]
        \<and> (in_flight s \<longrightarrow>
             \<not> isScanning (step (AttemptEnds env) s)
             \<and> finished (step (AttemptEnds env) s) = finished s + 1)"
    by (simp add: performScan_try_def in_flight_def performScan_end_def)
  have 8: "scanAutoReply env = Pending \<longrightarrow> performScan_try env = Hangs [Call ScanAuto]"
    by (simp add: performScan_try_def)
  have 9: "scanAutoReply env = Resolves t res \<and> success res \<longrightarrow>
        (docTypeReply env = Pending \<longrightarrow>
           performScan_try env = Hangs (Call ScanAuto # staging @ [Call GetDocumentType]))
        \<and> (docTypeReply env = Resolves u dt \<and> scanType res = Passport
             \<and> mrzReply env 0 = Pending \<longrightarrow>
             performScan_try env
               = Hangs (Call ScanAuto # staging @ [Call GetDocumentType, Call ReadMRZ]))
        \<and> (docTypeReply env = Resolves u dt \<and> scanType res = Card
             \<and> licenseReply env 0 = Pending \<longrightarrow>
             performScan_try env
               = Hangs (Call ScanAuto # staging
                        @ [Call GetDocumentType, Call ReadDriverLicense]))"
  proof -
    have m: "mrzReply env 0 = Pending \<Longrightarrow> mrzLoop (mrzReply env) 0 10 = Hangs [Call ReadMRZ]"
      unfolding ten by (rule mrzLoop_pending)
    have o: "licenseReply env 0 = Pending \<Longrightarrow> ocrLoop env 0 10 = Hangs [Call ReadDriverLicense]"
      unfolding ten by (rule ocrLoop_pending)
    have a: "docTypeReply env = Pending \<longrightarrow>
           performScan_try env = Hangs (Call ScanAuto # staging @ [Call GetDocumentType])"
      if "scanAutoReply env = Resolves t res \<and> success res"
      using that by (simp add: performScan_try_def staging_def)
    have b: "docTypeReply env = Resolves u dt \<and> scanType res = Passport
             \<and> mrzReply env 0 = Pending \<longrightarrow>
             performScan_try env
               = Hangs (Call ScanAuto # staging @ [Call GetDocumentType, Call ReadMRZ])"
      if "scanAutoReply env = Resolves t res \<and> success res"
      using that m by (simp add: performScan_try_def readDocument_def staging_def)
    have c: "docTypeReply env = Resolves u dt \<and> scanType res = Card
             \<and> licenseReply env 0 = Pending \<longrightarrow>
             performScan_try env
               = Hangs (Call ScanAuto # staging
                        @ [Call GetDocumentType, Call ReadDriverLicense])"
      if "scanAutoReply env = Resolves t res \<and> success res"
      using that o by (simp add: performScan_try_def readDocument_def staging_def)
    from a b c show ?thesis by blast
  qed
  have 5: "\<exists>v es. reconnect_scanner renv s = Returns v es"
    by (rule reconnect_returns)
  have 10: "in_flight s \<and> performScan_try env = Hangs es \<longrightarrow>
        isScanning (run evs (step (AttemptEnds env) s))
        \<and> started (run evs (step (AttemptEnds env) s)) = started s
        \<and> finished (run evs (step (AttemptEnds env) s)) = finished s"
    using hang_blocks [of s env es evs] by blast
  show ?thesis
    by (intro conjI) (rule 1 2 3 c1 c2 c3 c4 c5 c6 4 5 6 7 8 9 10)+
qed

theorem deadlines_on_open_and_close_witness:
  "\<not> settles_before (Pending :: bool reply) 3000
   \<and> settles_before (Resolves 5 True) 3000
   \<and> scannerPresent scanning_state \<and> in_flight scanning_state
   \<and> scanAutoReply hang_env = Pending
   \<and> scanAutoReply timeout_env
       = Rejects 12000 (timeout_message (str ''scanner.scanAuto'') 12000)
   \<and> scanAutoReply slow_env = Resolves 60000 \<lparr>success = False, scanType = NoScan\<rparr>
   \<and> withTimeout (Pending :: bool reply) 3000 (str ''scanner.open'')
       = Rejects 3000 (timeout_message (str ''scanner.open'') 3000)
   \<and> withTimeout (Resolves 5 True) 3000 (str ''scanner.open'') = Resolves 5 True
   \<and> \<not> settles_before (Pending :: unit reply) 2000
   \<and> openCall Pending = Rejects 3000 (timeout_message (str ''scanner.open'') 3000)
   \<and> closeCall Pending = Rejects 2000 (timeout_message (str ''scanner.close'') 2000)
   \<and> tryOpenDevice Pending scanning_state
       = Returns (False, scanning_state\<lparr>scannerOpened := False\<rparr>)
           [Call Open, SendStatus False False]
   \<and> closeDevice Pending scanning_state
       = Returns ((), scanning_state\<lparr>scannerOpened := False\<rparr>)
           [Call Close, SendStatus False False]
   \<and> performScan_try slow_env = Returns NoDocument [Call ScanAuto]
   \<and> \<not> isScanning (step (AttemptEnds timeout_env) scanning_state)
   \<and> performScan_try hang_env = Hangs [Call ScanAuto]
   \<and> isScanning (run [Tick 100000, ManualScan, ReconnectRequest 200000 ready_renv,
                       Tick 1000000]
                    (step (AttemptEnds hang_env) scanning_state))
   \<and> started (run [Tick 100000, ManualScan, ReconnectRequest 200000 ready_renv,
                    Tick 1000000]
                 (step (AttemptEnds hang_env) scanning_state)) = 1
   \<and> docTypeReply doc_type_hang_env = Pending \<and> mrzReply mrz_hang_env 0 = Pending
   \<and> licenseReply getter_hang_env 0 = Pending
   \<and> performScan_try doc_type_hang_env
       = Hangs (Call ScanAuto # staging @ [Call GetDocumentType])
   \<and> performScan_try mrz_hang_env
       = Hangs (Call ScanAuto # staging @ [Call GetDocumentType, Call ReadMRZ])
   \<and> performScan_try getter_hang_env
       = Hangs (Call ScanAuto # staging @ [Call GetDocumentType, Call ReadDriverLicense])"
proof -
  have h1: "\<not> settles_before (Pending :: bool reply) 3000"
    and h2: "settles_before (Resolves 5 True) 3000"
    and h5: "\<not> settles_before (Pending :: unit reply) 2000"
    by (simp_all add: settles_before_def)
  have h3: "scannerPresent scanning_state" and h4: "in_flight scanning_state"
    and s1: "started scanning_state = 1"
    by (simp_all add: scanning_state_eq in_flight_def)
  have e1: "scanAutoReply hang_env = Pending"
    and e2: "scanAutoReply timeout_env
       = Rejects 12000 (timeout_message (str ''scanner.scanAuto'') 12000)"
    and e3: "scanAutoReply slow_env = Resolves 60000 \<lparr>success = False, scanType = NoScan\<rparr>"
    by (simp_all add: hang_env_def timeout_env_def slow_env_def)
  have o: "opens_in_time Pending = False" by (simp add: opens_in_time_def)
  have ns: "\<not> success \<lparr>success = False, scanType = NoScan\<rparr>" by simp
  note a = deadlines_on_open_and_close [where p = "Pending :: bool reply" and ms = 3000
      and label = "str ''scanner.open''" and s = scanning_state and r = Pending
      and c = Pending and renv = ready_renv and env = hang_env and es = "[Call ScanAuto]"
      and t = 0 and m = "[]" and res = "\<lparr>success = False, scanType = NoScan\<rparr>"
      and u = 0 and dt = None
      and evs = "[Tick 100000, ManualScan, ReconnectRequest 200000 ready_renv, Tick 1000000]"]
  from a [THEN conjunct2, THEN conjunct1] h1
  have w1: "withTimeout (Pending :: bool reply) 3000 (str ''scanner.open'')
       = Rejects 3000 (timeout_message (str ''scanner.open'') 3000)"
    by blast
  from a [THEN conjunct2, THEN conjunct2, THEN conjunct2, THEN conjunct2, THEN conjunct2, THEN conjunct2, THEN conjunct1] h1
  have w10: "openCall Pending = Rejects 3000 (timeout_message (str ''scanner.open'') 3000)"
    by blast
  from a [THEN conjunct2, THEN conjunct2, THEN conjunct2, THEN conjunct2, THEN conjunct2, THEN conjunct2, THEN conjunct2, THEN conjunct2, THEN conjunct1] h5
  have w11: "closeCall Pending = Rejects 2000 (timeout_message (str ''scanner.close'') 2000)"
    by blast
  from a [THEN conjunct2, THEN conjunct2, THEN conjunct2, THEN conjunct2, THEN conjunct2, THEN conjunct2, THEN conjunct2, THEN conjunct2, THEN conjunct2, THEN conjunct1] h3
  have "tryOpenDevice Pending scanning_state
       = Returns (opens_in_time Pending, scanning_state\<lparr>scannerOpened := opens_in_time Pending\<rparr>)
           [Call Open, SendStatus (opens_in_time Pending) False]"
    and w4: "closeDevice Pending scanning_state
       = Returns ((), scanning_state\<lparr>scannerOpened := False\<rparr>)
           [Call Close, SendStatus False False]"
    by blast+
  then have w3: "tryOpenDevice Pending scanning_state
       = Returns (False, scanning_state\<lparr>scannerOpened := False\<rparr>)
           [Call Open, SendStatus False False]"
    unfolding o by blast
  from a [THEN conjunct2, THEN conjunct2, THEN conjunct2, THEN conjunct2, THEN conjunct2, THEN conjunct2, THEN conjunct2, THEN conjunct2, THEN conjunct2, THEN conjunct2, THEN conjunct2, THEN conjunct2, THEN conjunct2, THEN conjunct1] e1 have w5: "performScan_try hang_env = Hangs [Call ScanAuto]"
    by blast
  from a [THEN conjunct2, THEN conjunct2, THEN conjunct2, THEN conjunct2, THEN conjunct2, THEN conjunct2, THEN conjunct2, THEN conjunct2, THEN conjunct2, THEN conjunct2, THEN conjunct2, THEN conjunct2, THEN conjunct2, THEN conjunct2, THEN conjunct2] h4 w5
  have w6: "isScanning (run [Tick 100000, ManualScan,
                       ReconnectRequest 200000 ready_renv, Tick 1000000]
                    (step (AttemptEnds hang_env) scanning_state))"
    and "started (run [Tick 100000, ManualScan, ReconnectRequest 200000 ready_renv,
                    Tick 1000000]
                 (step (AttemptEnds hang_env) scanning_state)) = started scanning_state"
    by blast+
  then have w7: "started (run [Tick 100000, ManualScan, ReconnectRequest 200000 ready_renv,
                    Tick 1000000]
                 (step (AttemptEnds hang_env) scanning_state)) = 1"
    unfolding s1 by blast
  note b = deadlines_on_open_and_close [where p = "Resolves 5 True" and ms = 3000
      and label = "str ''scanner.open''" and s = scanning_state and env = timeout_env
      and t = 12000 and m = "timeout_message (str ''scanner.scanAuto'') 12000"
      and res = "\<lparr>success = False, scanType = NoScan\<rparr>" and r = Pending and c = Pending
      and renv = ready_renv and u = 0 and dt = None and es = "[]" and evs = "[]"]
  from b [THEN conjunct2, THEN conjunct2, THEN conjunct1] h2
  have w2: "withTimeout (Resolves 5 True) 3000 (str ''scanner.open'') = Resolves 5 True"
    by blast
  from b [THEN conjunct2, THEN conjunct2, THEN conjunct2, THEN conjunct2, THEN conjunct2, THEN conjunct2, THEN conjunct2, THEN conjunct2, THEN conjunct2, THEN conjunct2, THEN conjunct2, THEN conjunct2, THEN conjunct1] e2 h4
  have w8: "\<not> isScanning (step (AttemptEnds timeout_env) scanning_state)"
    by blast
  note c = deadlines_on_open_and_close [where p = "Resolves 5 True" and ms = 3000
      and label = "str ''scanner.open''" and s = scanning_state and env = slow_env
      and t = 60000 and m = "[]" and res = "\<lparr>success = False, scanType = NoScan\<rparr>"
      and r = Pending and c = Pending and renv = ready_renv and u = 0 and dt = None
      and es = "[]" and evs = "[]"]
  from c [THEN conjunct2, THEN conjunct2, THEN conjunct2, THEN conjunct2, THEN conjunct2, THEN conjunct2, THEN conjunct2, THEN conjunct2, THEN conjunct2, THEN conjunct2, THEN conjunct2, THEN conjunct1] e3 ns
  have w9: "performScan_try slow_env = Returns NoDocument [Call ScanAuto]"
    by blast
  have v: "scanAutoReply doc_type_hang_env = Resolves 900 card_scan"
    "scanAutoReply getter_hang_env = Resolves 900 card_scan"
    "docTypeReply getter_hang_env = Resolves 20 (Some UNKNOWN)"
    "scanAutoReply mrz_hang_env = Resolves 900 passport_scan"
    "docTypeReply mrz_hang_env = Resolves 20 (Some PASSPORT)"
    "success card_scan" "scanType card_scan = Card"
    "success passport_scan" "scanType passport_scan = Passport"
    and p: "docTypeReply doc_type_hang_env = Pending" "mrzReply mrz_hang_env 0 = Pending"
    "licenseReply getter_hang_env 0 = Pending"
    by (simp_all add: doc_type_hang_env_def getter_hang_env_def mrz_hang_env_def
        passport_env_def unknown_card_env_def card_scan_def passport_scan_def)
  note f = deadlines_on_open_and_close [where p = "Resolves 5 True" and ms = 3000
      and label = "str ''scanner.open''" and s = scanning_state and env = doc_type_hang_env
      and t = 900 and m = "[]" and res = card_scan and r = Pending and c = Pending
      and renv = ready_renv and u = 0 and dt = None and es = "[]" and evs = "[]"]
  from f [THEN conjunct2, THEN conjunct2, THEN conjunct2, THEN conjunct2, THEN conjunct2, THEN conjunct2, THEN conjunct2, THEN conjunct2, THEN conjunct2, THEN conjunct2, THEN conjunct2, THEN conjunct2, THEN conjunct2, THEN conjunct2, THEN conjunct1] v(1,6) p(1)
  have x1: "performScan_try doc_type_hang_env
              = Hangs (Call ScanAuto # staging @ [Call GetDocumentType])"
    by blast
  note g = deadlines_on_open_and_close [where p = "Resolves 5 True" and ms = 3000
      and label = "str ''scanner.open''" and s = scanning_state and env = mrz_hang_env
      and t = 900 and m = "[]" and res = passport_scan and r = Pending and c = Pending
      and renv = ready_renv and u = 20 and dt = "Some PASSPORT" and es = "[]" and evs = "[]"]
  from g [THEN conjunct2, THEN conjunct2, THEN conjunct2, THEN conjunct2, THEN conjunct2, THEN conjunct2, THEN conjunct2, THEN conjunct2, THEN conjunct2, THEN conjunct2, THEN conjunct2, THEN conjunct2, THEN conjunct2, THEN conjunct2, THEN conjunct1] v(4,5,8,9) p(2)
  have x2: "performScan_try mrz_hang_env
       = Hangs (Call ScanAuto # staging @ [Call GetDocumentType, Call ReadMRZ])"
    by blast
  note k = deadlines_on_open_and_close [where p = "Resolves 5 True" and ms = 3000
      and label = "str ''scanner.open''" and s = scanning_state and env = getter_hang_env
      and t = 900 and m = "[]" and res = card_scan and r = Pending and c = Pending
      and renv = ready_renv and u = 20 and dt = "Some UNKNOWN" and es = "[]" and evs = "[]"]
  from k [THEN conjunct2, THEN conjunct2, THEN conjunct2, THEN conjunct2, THEN conjunct2, THEN conjunct2, THEN conjunct2, THEN conjunct2, THEN conjunct2, THEN conjunct2, THEN conjunct2, THEN conjunct2, THEN conjunct2, THEN conjunct2, THEN conjunct1] v(2,3,6,7) p(3)
  have x3: "performScan_try getter_hang_env
       = Hangs (Call ScanAuto # staging @ [Call GetDocumentType, Call ReadDriverLicense])"
    by blast
  show ?thesis
    by (intro conjI)
       (rule h1 h2 h3 h4 h5 e1 e2 e3 w1 w2 w3 w4 w5 w6 w7 w8 w9 w10 w11 p x1 x2 x3)+
qed

end
